theory Spec2Isabelle
  imports Main "HOL-Library.Sublist"
begin

section \<open>JavaScript values\<close>

text \<open>
  A JavaScript string is a sequence of UTF-16 code units, numbers below 65536. The
  literals of the source are ASCII; \<open>utf16\<close> gives their code units.
\<close>

type_synonym codeUnit = nat

type_synonym jsstring = "codeUnit list"

definition utf16 :: "string \<Rightarrow> jsstring" where
  "utf16 s = map of_char s"

text \<open>
  The values that travel through \<^verbatim>\<open>backend/server.js\<close>: request bodies and tool arguments
  produced by \<^verbatim>\<open>JSON.parse\<close>, property reads that may be \<^verbatim>\<open>undefined\<close>, and handler
  results. Numbers are the integer-valued ones (note ids are \<^verbatim>\<open>Date.now()\<close> readings);
  fractional numbers, \<^verbatim>\<open>NaN\<close> and the infinities are not values of this type. In an
  object the later of two equal keys wins, as in \<^verbatim>\<open>JSON.parse\<close>.
\<close>

datatype jsval =
    JUndefined
  | JNull
  | JBool bool
  | JNum int
  | JStr jsstring
  | JArr "jsval list"
  | JObj "(jsstring \<times> jsval) list"

text \<open>\<^verbatim>\<open>!v\<close>: the falsy values are undefined, null, false, 0 and the empty string.\<close>

fun falsy :: "jsval \<Rightarrow> bool" where
  "falsy JUndefined = True"
| "falsy JNull = True"
| "falsy (JBool b) = (\<not> b)"
| "falsy (JNum n) = (n = 0)"
| "falsy (JStr s) = (s = [])"
| "falsy (JArr xs) = False"
| "falsy (JObj fs) = False"

text \<open>
  \<^verbatim>\<open>v.k\<close> for a value that is neither null nor undefined and a key that
  \<^verbatim>\<open>Object.prototype\<close>, \<^verbatim>\<open>Array.prototype\<close> and the primitive wrappers do not define
  (the source reads \<^verbatim>\<open>title\<close>, \<^verbatim>\<open>text\<close>, \<^verbatim>\<open>category\<close>, \<^verbatim>\<open>color\<close>, \<^verbatim>\<open>id\<close> and
  \<^verbatim>\<open>query\<close>): an own property of an object, undefined on anything else. Reading a
  property of null or undefined throws; the callers below test for that first.
\<close>

fun getProp :: "jsval \<Rightarrow> jsstring \<Rightarrow> jsval" where
  "getProp (JObj fs) k = (case map_of (rev fs) k of None \<Rightarrow> JUndefined | Some v \<Rightarrow> v)"
| "getProp v k = JUndefined"

subsection \<open>Strings\<close>

text \<open>
  \<^verbatim>\<open>String.prototype.trim\<close> strips white space and line terminators from both ends: TAB,
  LF, VT, FF, CR, SPACE, NO-BREAK SPACE, U+1680, U+2000 to U+200A, LINE SEPARATOR,
  PARAGRAPH SEPARATOR, U+202F, U+205F, U+3000 and U+FEFF.
\<close>

definition isWhiteSpace :: "codeUnit \<Rightarrow> bool" where
  "isWhiteSpace c \<longleftrightarrow>
     c \<in> set [0x09, 0x0A, 0x0B, 0x0C, 0x0D, 0x20, 0xA0, 0x1680,
               0x2000, 0x2001, 0x2002, 0x2003, 0x2004, 0x2005, 0x2006, 0x2007, 0x2008,
               0x2009, 0x200A, 0x2028, 0x2029, 0x202F, 0x205F, 0x3000, 0xFEFF]"

definition trim :: "jsstring \<Rightarrow> jsstring" where
  "trim s = rev (dropWhile isWhiteSpace (rev (dropWhile isWhiteSpace s)))"

text \<open>
  \<^verbatim>\<open>String.prototype.toLowerCase\<close> follows the default case conversion of Unicode: every
  character goes to its simple lowercase mapping, except that U+0130 goes to the two code
  units U+0069 U+0307 and that a capital sigma U+03A3 goes to the final small sigma
  U+03C2 where it ends a word and to U+03C3 elsewhere. A sigma ends a word when, case-
  ignorable characters skipped, a cased letter stands before it and none stands after it.

  The character tables are those of the runtime, not of the repository. The definitions
  below carry them for Basic Latin and Latin-1 Supplement (U+0000 to U+00FF), for U+0130
  and U+0307, and for the Greek letters U+0386 to U+03CE. A code unit outside these ranges
  is kept as it is and taken for neither cased nor case-ignorable; the runtime does the
  same for characters without case, and otherwise for the letters of other scripts.
\<close>

definition simpleLowercase :: "codeUnit \<Rightarrow> codeUnit" where
  "simpleLowercase c =
     (if (0x41 \<le> c \<and> c \<le> 0x5A) \<or> (0xC0 \<le> c \<and> c \<le> 0xDE \<and> c \<noteq> 0xD7) \<or>
         (0x391 \<le> c \<and> c \<le> 0x3AB \<and> c \<noteq> 0x3A2) then c + 32
      else if c = 0x386 then 0x3AC
      else if 0x388 \<le> c \<and> c \<le> 0x38A then c + 37
      else if c = 0x38C then 0x3CC
      else if c = 0x38E \<or> c = 0x38F then c + 63
      else c)"

definition cased :: "codeUnit \<Rightarrow> bool" where
  "cased c \<longleftrightarrow>
     (0x41 \<le> c \<and> c \<le> 0x5A) \<or> (0x61 \<le> c \<and> c \<le> 0x7A) \<or>
     c = 0xAA \<or> c = 0xB5 \<or> c = 0xBA \<or>
     (0xC0 \<le> c \<and> c \<le> 0xD6) \<or> (0xD8 \<le> c \<and> c \<le> 0xF6) \<or> (0xF8 \<le> c \<and> c \<le> 0xFF) \<or>
     c = 0x130 \<or> c = 0x386 \<or> (0x388 \<le> c \<and> c \<le> 0x38A) \<or> c = 0x38C \<or>
     (0x38E \<le> c \<and> c \<le> 0x3A1) \<or> (0x3A3 \<le> c \<and> c \<le> 0x3CE)"

definition caseIgnorable :: "codeUnit \<Rightarrow> bool" where
  "caseIgnorable c \<longleftrightarrow>
     c \<in> set [0x27, 0x2E, 0x3A, 0x5E, 0x60, 0xA8, 0xAD, 0xAF, 0xB4, 0xB7, 0xB8, 0x307, 0x387]"

text \<open>
  Going away from the sigma, in either direction: case-ignorable characters, then a cased
  letter.
\<close>

fun casedNext :: "jsstring \<Rightarrow> bool" where
  "casedNext [] = False"
| "casedNext (c # cs) = (cased c \<or> (caseIgnorable c \<and> casedNext cs))"

text \<open>
  \<open>lowerFrom seen s\<close> puts \<open>s\<close> in lower case; \<open>seen\<close> holds the code units to the
  left of \<open>s\<close>, the nearest first.
\<close>

fun lowerFrom :: "jsstring \<Rightarrow> jsstring \<Rightarrow> jsstring" where
  "lowerFrom seen [] = []"
| "lowerFrom seen (c # cs) =
     (if c = 0x3A3
        then [if casedNext seen \<and> \<not> casedNext cs then 0x3C2 else 0x3C3]
      else if c = 0x130 then [0x69, 0x307]
      else [simpleLowercase c]) @ lowerFrom (c # seen) cs"

definition toLowerCase :: "jsstring \<Rightarrow> jsstring" where
  "toLowerCase s = lowerFrom [] s"

text \<open>\<^verbatim>\<open>s.includes(q)\<close>: \<open>q\<close> occurs in \<open>s\<close> as a contiguous run of code units.\<close>

fun strIncludes :: "jsstring \<Rightarrow> jsstring \<Rightarrow> bool" where
  "strIncludes [] q = (q = [])"
| "strIncludes (c # cs) q = (prefix q (c # cs) \<or> strIncludes cs q)"

text \<open>Decimal rendering of an integer, as \<^verbatim>\<open>String(n)\<close> gives it below \<open>10^21\<close>.\<close>

fun showNat :: "nat \<Rightarrow> jsstring" where
  "showNat n =
     (if n < 10 then [utf16 ''0123456789'' ! n]
      else showNat (n div 10) @ [utf16 ''0123456789'' ! (n mod 10)])"

declare showNat.simps [simp del]

definition showInt :: "int \<Rightarrow> jsstring" where
  "showInt n = (if n < 0 then utf16 ''-'' @ showNat (nat (- n)) else showNat (nat n))"

fun joinComma :: "jsstring list \<Rightarrow> jsstring" where
  "joinComma [] = []"
| "joinComma [s] = s"
| "joinComma (s # t # ts) = s @ utf16 '','' @ joinComma (t # ts)"

text \<open>
  \<^verbatim>\<open>String(v)\<close>. An array is its elements joined by commas, a null or undefined element
  giving the empty string; a plain object is \<^verbatim>\<open>[object Object]\<close>. (An object that has a
  key \<^verbatim>\<open>toString\<close> of its own makes \<^verbatim>\<open>String\<close> throw, and a number from \<open>10^21\<close> on is
  printed with an exponent; here they are converted like the others.)
\<close>

fun jsString :: "jsval \<Rightarrow> jsstring" where
  "jsString JUndefined = utf16 ''undefined''"
| "jsString JNull = utf16 ''null''"
| "jsString (JBool b) = (if b then utf16 ''true'' else utf16 ''false'')"
| "jsString (JNum n) = showInt n"
| "jsString (JStr s) = s"
| "jsString (JArr xs) =
     joinComma (map (\<lambda>x. if x = JNull \<or> x = JUndefined then [] else jsString x) xs)"
| "jsString (JObj fs) = utf16 ''[object Object]''"

text \<open>
  \<^verbatim>\<open>Number(v)\<close>, with \<open>None\<close> for a result that equals no stored id under \<^verbatim>\<open>===\<close>
  (\<^verbatim>\<open>NaN\<close>). A string converts when, trimmed, it is empty (to 0) or an optionally signed
  run of decimal digits; the other numeric literal forms of JavaScript (fractions,
  exponents, radix prefixes, \<^verbatim>\<open>Infinity\<close>) are not interpreted and give \<open>None\<close>, and an
  integer beyond \<open>2^53\<close> is not rounded. Arrays and objects convert through their string.
\<close>

definition digitValue :: "codeUnit \<Rightarrow> nat option" where
  "digitValue c = (if 0x30 \<le> c \<and> c \<le> 0x39 then Some (c - 0x30) else None)"

fun digitsValue :: "nat \<Rightarrow> jsstring \<Rightarrow> nat option" where
  "digitsValue acc [] = Some acc"
| "digitsValue acc (c # cs) =
     (case digitValue c of None \<Rightarrow> None | Some d \<Rightarrow> digitsValue (10 * acc + d) cs)"

definition stringToNumber :: "jsstring \<Rightarrow> int option" where
  "stringToNumber s =
     (case trim s of
        [] \<Rightarrow> Some 0
      | c # cs \<Rightarrow>
          if c = 0x2D \<and> cs \<noteq> [] then map_option (\<lambda>n. - int n) (digitsValue 0 cs)
          else if c = 0x2B \<and> cs \<noteq> [] then map_option int (digitsValue 0 cs)
          else map_option int (digitsValue 0 (c # cs)))"

fun toNumber :: "jsval \<Rightarrow> int option" where
  "toNumber JUndefined = None"
| "toNumber JNull = Some 0"
| "toNumber (JBool b) = Some (if b then 1 else 0)"
| "toNumber (JNum n) = Some n"
| "toNumber (JStr s) = stringToNumber s"
| "toNumber (JArr xs) = stringToNumber (jsString (JArr xs))"
| "toNumber (JObj fs) = stringToNumber (jsString (JObj fs))"

section \<open>The store\<close>

text \<open>
  A note as \<^verbatim>\<open>addNote\<close> builds it. The two timestamps are the ISO-8601 strings that
  \<^verbatim>\<open>new Date().toISOString()\<close> returned.
\<close>

record Note =
  note_id :: int
  title :: jsstring
  "text" :: jsstring
  category :: jsstring
  color :: jsstring
  createdAt :: jsstring
  updatedAt :: jsstring

text \<open>
  One reading of the system clock: \<^verbatim>\<open>Date.now()\<close> takes the milliseconds,
  \<^verbatim>\<open>new Date().toISOString()\<close> the rendering.
\<close>

record instant =
  epoch_ms :: int
  iso :: jsstring

text \<open>
  The world outside the process: the file \<^verbatim>\<open>data/notes.json\<close>, which is absent (\<open>None\<close>)
  or holds an array of well-formed notes (what other software may have put into the file
  is not the service's doing); the number of times the file has been written; and the
  clock: its \<open>k\<close>-th reading is \<open>clock w k\<close>, and \<open>reads w\<close> readings have been taken.
\<close>

record world =
  dataFile :: "Note list option"
  writes :: nat
  clock :: "nat \<Rightarrow> instant"
  reads :: nat

text \<open>The collection that the world holds: no notes when there is no file yet.\<close>

definition stored :: "world \<Rightarrow> Note list" where
  "stored w = (case dataFile w of None \<Rightarrow> [] | Some notes \<Rightarrow> notes)"

text \<open>
  \<^verbatim>\<open>initDataFile\<close> writes the file with the text \<^verbatim>\<open>[]\<close> when it does not exist (after
  it has made the directory, where that was missing too).
\<close>

definition initDataFile :: "world \<Rightarrow> world" where
  "initDataFile w =
     (case dataFile w of
        None \<Rightarrow> w\<lparr>dataFile := Some [], writes := writes w + 1\<rparr>
      | Some notes \<Rightarrow> w)"

definition readNotes :: "world \<Rightarrow> Note list \<times> world" where
  "readNotes w = (let w1 = initDataFile w in (stored w1, w1))"

definition writeNotes :: "Note list \<Rightarrow> world \<Rightarrow> world" where
  "writeNotes notes w =
     (let w1 = initDataFile w in w1\<lparr>dataFile := Some notes, writes := writes w1 + 1\<rparr>)"

definition readClock :: "world \<Rightarrow> instant \<times> world" where
  "readClock w = (clock w (reads w), w\<lparr>reads := reads w + 1\<rparr>)"

datatype error =
    TypeError
  | ConfigurationError
  | UpstreamError jsstring

section \<open>Note service\<close>

text \<open>
  Every operation returns its result together with the world it leaves; a result
  \<open>Inl e\<close> is a throw of \<open>e\<close>.
\<close>

definition ALLOWED_CATEGORIES :: "jsstring set" where
  "ALLOWED_CATEGORIES =
     {utf16 ''general'', utf16 ''personal'', utf16 ''work'', utf16 ''ideas''}"

definition normalizeCategory :: "jsval \<Rightarrow> jsstring" where
  "normalizeCategory cat =
     (if falsy cat then utf16 ''general''
      else let value = toLowerCase (jsString cat)
           in if value \<in> ALLOWED_CATEGORIES then value else utf16 ''general'')"

definition normalizeColor :: "jsval \<Rightarrow> jsstring" where
  "normalizeColor col = (if falsy col then utf16 ''#ffffff'' else jsString col)"

record notePayload =
  p_title :: jsstring
  p_text :: jsstring
  p_category :: jsstring
  p_color :: jsstring

text \<open>
  \<^verbatim>\<open>buildNotePayload(payload = {})\<close>: the default replaces undefined only, and reading
  \<^verbatim>\<open>payload.title\<close> of null throws a TypeError.
\<close>

definition buildNotePayload :: "jsval \<Rightarrow> error + notePayload" where
  "buildNotePayload arg =
     (let payload = (if arg = JUndefined then JObj [] else arg)
      in if payload = JNull then Inl TypeError
         else Inr \<lparr>
           p_title = (case getProp payload (utf16 ''title'') of
                        JStr s \<Rightarrow> if trim s \<noteq> [] then trim s else utf16 ''Untitled''
                      | _ \<Rightarrow> utf16 ''Untitled''),
           p_text = (case getProp payload (utf16 ''text'') of JStr s \<Rightarrow> trim s | _ \<Rightarrow> []),
           p_category = normalizeCategory (getProp payload (utf16 ''category'')),
           p_color = normalizeColor (getProp payload (utf16 ''color''))\<rparr>)"

text \<open>
  \<^verbatim>\<open>addNote\<close> reads the file, builds the payload, and reads the clock three times:
  \<^verbatim>\<open>Date.now()\<close> for the id, then \<^verbatim>\<open>new Date()\<close> for each of the two timestamps.
\<close>

definition addNote :: "jsval \<Rightarrow> world \<Rightarrow> (error + Note) \<times> world" where
  "addNote payload w =
     (let (notes, w0) = readNotes w
      in case buildNotePayload payload of
           Inl e \<Rightarrow> (Inl e, w0)
         | Inr basePayload \<Rightarrow>
             (let (t0, w1) = readClock w0;
                  (t1, w2) = readClock w1;
                  (t2, w3) = readClock w2;
                  newNote = \<lparr>note_id = epoch_ms t0,
                             title = p_title basePayload,
                             text = p_text basePayload,
                             category = p_category basePayload,
                             color = p_color basePayload,
                             createdAt = iso t1,
                             updatedAt = iso t2\<rparr>
              in (Inr newNote, writeNotes (notes @ [newNote]) w3)))"

text \<open>
  An id argument is a JavaScript number; \<open>None\<close> stands for one that is \<^verbatim>\<open>===\<close> to no
  stored id (\<^verbatim>\<open>NaN\<close> from \<^verbatim>\<open>parseInt\<close> or \<^verbatim>\<open>Number\<close>).
\<close>

definition getNoteById :: "int option \<Rightarrow> world \<Rightarrow> Note option \<times> world" where
  "getNoteById i w =
     (let (notes, w0) = readNotes w
      in (find (\<lambda>n. Some (note_id n) = i) notes, w0))"

fun findIndex :: "('a \<Rightarrow> bool) \<Rightarrow> 'a list \<Rightarrow> nat option" where
  "findIndex P [] = None"
| "findIndex P (x # xs) = (if P x then Some 0 else map_option Suc (findIndex P xs))"

text \<open>
  \<^verbatim>\<open>updateNoteById(id, updates = {})\<close> returns null for an unknown id before it looks at
  \<open>updates\<close>; the clock is read once, after the fields are set.
\<close>

definition updateNoteById ::
  "int option \<Rightarrow> jsval \<Rightarrow> world \<Rightarrow> (error + Note option) \<times> world" where
  "updateNoteById i arg w =
     (let updates = (if arg = JUndefined then JObj [] else arg);
          (notes, w0) = readNotes w
      in case findIndex (\<lambda>n. Some (note_id n) = i) notes of
           None \<Rightarrow> (Inr None, w0)
         | Some index \<Rightarrow>
             if updates = JNull then (Inl TypeError, w0)
             else
               (let next0 = notes ! index;
                    next1 = (case getProp updates (utf16 ''title'') of
                               JStr s \<Rightarrow>
                                 next0\<lparr>title := (if trim s \<noteq> [] then trim s else title next0)\<rparr>
                             | _ \<Rightarrow> next0);
                    next2 = (case getProp updates (utf16 ''text'') of
                               JStr s \<Rightarrow> next1\<lparr>text := trim s\<rparr>
                             | _ \<Rightarrow> next1);
                    next3 = (if getProp updates (utf16 ''category'') \<noteq> JUndefined
                             then next2\<lparr>category :=
                                    normalizeCategory (getProp updates (utf16 ''category''))\<rparr>
                             else next2);
                    next4 = (if getProp updates (utf16 ''color'') \<noteq> JUndefined
                             then next3\<lparr>color :=
                                    normalizeColor (getProp updates (utf16 ''color''))\<rparr>
                             else next3);
                    (t, w1) = readClock w0;
                    next = next4\<lparr>updatedAt := iso t\<rparr>
                in (Inr (Some next), writeNotes (notes[index := next]) w1)))"

definition deleteNoteById :: "int option \<Rightarrow> world \<Rightarrow> bool \<times> world" where
  "deleteNoteById i w =
     (let (notes, w0) = readNotes w;
          nextNotes = filter (\<lambda>n. Some (note_id n) \<noteq> i) notes
      in if length nextNotes = length notes then (False, w0)
         else (True, writeNotes nextNotes w0))"

definition searchNotes :: "jsval \<Rightarrow> world \<Rightarrow> Note list \<times> world" where
  "searchNotes query w =
     (let normalized = toLowerCase (jsString (if falsy query then JStr [] else query));
          (notes, w0) = readNotes w
      in (filter (\<lambda>note. strIncludes (toLowerCase (title note)) normalized \<or>
                         strIncludes (toLowerCase (text note)) normalized) notes, w0))"

definition truncateText :: "jsstring \<Rightarrow> jsstring" where
  "truncateText txt =
     (if txt = [] then []
      else if length txt \<le> 160 then txt
      else take 160 txt @ utf16 ''...'')"

section \<open>Tool registry\<close>

datatype tool = list_notes | search_notes | create_note | update_note | delete_note

text \<open>
  \<^verbatim>\<open>agentHandlers\<close> is an object literal with five own properties, so
  \<^verbatim>\<open>agentHandlers[toolName]\<close> finds an own property first and then looks along the
  prototype chain, where \<^verbatim>\<open>Object.prototype\<close> answers to twelve more names. Every value
  found is truthy (eleven functions and, for \<^verbatim>\<open>__proto__\<close>, the prototype object itself).
\<close>

definition objectPrototypeKeys :: "jsstring list" where
  "objectPrototypeKeys =
     map utf16
       [''constructor'', ''__defineGetter__'', ''__defineSetter__'', ''hasOwnProperty'',
        ''__lookupGetter__'', ''__lookupSetter__'', ''isPrototypeOf'', ''propertyIsEnumerable'',
        ''toString'', ''valueOf'', ''__proto__'', ''toLocaleString'']"

datatype handler = Own tool | Inherited jsstring

definition agentHandlers :: "jsstring \<Rightarrow> handler option" where
  "agentHandlers toolName =
     (case map_of [(utf16 ''list_notes'', list_notes), (utf16 ''search_notes'', search_notes),
                   (utf16 ''create_note'', create_note), (utf16 ''update_note'', update_note),
                   (utf16 ''delete_note'', delete_note)] toolName of
        Some t \<Rightarrow> Some (Own t)
      | None \<Rightarrow> if toolName \<in> set objectPrototypeKeys then Some (Inherited toolName) else None)"

text \<open>A note as a JavaScript object, keys in the order \<^verbatim>\<open>addNote\<close> writes them.\<close>

definition noteValue :: "Note \<Rightarrow> jsval" where
  "noteValue n =
     JObj [(utf16 ''id'', JNum (note_id n)), (utf16 ''title'', JStr (title n)),
           (utf16 ''text'', JStr (text n)), (utf16 ''category'', JStr (category n)),
           (utf16 ''color'', JStr (color n)), (utf16 ''createdAt'', JStr (createdAt n)),
           (utf16 ''updatedAt'', JStr (updatedAt n))]"

text \<open>The projection that \<^verbatim>\<open>list_notes\<close> and \<^verbatim>\<open>search_notes\<close> return for each note.\<close>

definition notePreview :: "Note \<Rightarrow> jsval" where
  "notePreview n =
     JObj [(utf16 ''id'', JNum (note_id n)), (utf16 ''title'', JStr (title n)),
           (utf16 ''category'', JStr (category n)), (utf16 ''updatedAt'', JStr (updatedAt n)),
           (utf16 ''preview'', JStr (truncateText (text n)))]"

text \<open>
  The rest object of \<^verbatim>\<open>({ id, ...updates })\<close>. For an array or a string it would hold the
  index keys, which \<^verbatim>\<open>updateNoteById\<close> never reads; they are left out.
\<close>

fun restWithoutId :: "jsval \<Rightarrow> jsval" where
  "restWithoutId (JObj fs) = JObj (filter (\<lambda>kv. fst kv \<noteq> utf16 ''id'') fs)"
| "restWithoutId v = JObj []"

text \<open>
  The five handlers. A parameter pattern \<^verbatim>\<open>({ query })\<close>, \<^verbatim>\<open>({ id, ...updates })\<close> or
  \<^verbatim>\<open>({ id })\<close> throws a TypeError when the argument is null or undefined, before the
  file is touched; \<^verbatim>\<open>list_notes\<close> takes no parameter, and \<^verbatim>\<open>create_note\<close> hands its
  argument to \<^verbatim>\<open>addNote\<close>.
\<close>

fun runTool :: "tool \<Rightarrow> jsval \<Rightarrow> world \<Rightarrow> (error + jsval) \<times> world" where
  "runTool list_notes args w =
     (case readNotes w of (notes, w') \<Rightarrow> (Inr (JArr (map notePreview notes)), w'))"
| "runTool search_notes args w =
     (if args = JNull \<or> args = JUndefined then (Inl TypeError, w)
      else case searchNotes (getProp args (utf16 ''query'')) w of
             (results, w') \<Rightarrow> (Inr (JArr (map notePreview results)), w'))"
| "runTool create_note args w =
     (case addNote args w of
        (Inl e, w') \<Rightarrow> (Inl e, w')
      | (Inr newNote, w') \<Rightarrow> (Inr (noteValue newNote), w'))"
| "runTool update_note args w =
     (if args = JNull \<or> args = JUndefined then (Inl TypeError, w)
      else case updateNoteById (toNumber (getProp args (utf16 ''id''))) (restWithoutId args) w of
             (Inl e, w') \<Rightarrow> (Inl e, w')
           | (Inr None, w') \<Rightarrow> (Inr JNull, w')
           | (Inr (Some next), w') \<Rightarrow> (Inr (noteValue next), w'))"
| "runTool delete_note args w =
     (if args = JNull \<or> args = JUndefined then (Inl TypeError, w)
      else case deleteNoteById (toNumber (getProp args (utf16 ''id''))) w of
             (deleted, w') \<Rightarrow> (Inr (JBool deleted), w'))"

text \<open>
  \<^verbatim>\<open>handler(args)\<close> for a value inherited from \<^verbatim>\<open>Object.prototype\<close>, called with no
  receiver. \<^verbatim>\<open>toString\<close> answers for the undefined receiver; \<^verbatim>\<open>constructor\<close> is
  \<^verbatim>\<open>Object\<close>, which returns an object argument as it is, a fresh empty object for null
  or undefined, and a wrapper for a primitive (written here as the primitive, which is how
  it serialises); \<^verbatim>\<open>isPrototypeOf\<close> returns false for a primitive argument before it
  looks at the receiver. The other functions convert the receiver to an object first and
  throw, and \<^verbatim>\<open>__proto__\<close> is not a function at all.
\<close>

definition callInherited :: "jsstring \<Rightarrow> jsval \<Rightarrow> error + jsval" where
  "callInherited k args =
     (if k = utf16 ''toString'' then Inr (JStr (utf16 ''[object Undefined]''))
      else if k = utf16 ''constructor''
        then Inr (if args = JNull \<or> args = JUndefined then JObj [] else args)
      else if k = utf16 ''isPrototypeOf''
        then (case args of JObj fs \<Rightarrow> Inl TypeError | JArr xs \<Rightarrow> Inl TypeError
              | _ \<Rightarrow> Inr (JBool False))
      else Inl TypeError)"

fun callHandler :: "handler \<Rightarrow> jsval \<Rightarrow> world \<Rightarrow> (error + jsval) \<times> world" where
  "callHandler (Own t) args w = runTool t args w"
| "callHandler (Inherited k) args w = (callInherited k args, w)"

section \<open>Agent loop\<close>

text \<open>
  The \<^verbatim>\<open>arguments\<close> string of a tool call, by what \<^verbatim>\<open>JSON.parse\<close> makes of it: absent or
  empty (then \<^verbatim>\<open>"{}"\<close> is parsed instead), not JSON (the parse throws and the catch
  block puts the empty object), or the text of a value.
\<close>

datatype arguments = ArgsEmpty | ArgsMalformed | ArgsJson jsval

fun parseArguments :: "arguments \<Rightarrow> jsval" where
  "parseArguments ArgsEmpty = JObj []"
| "parseArguments ArgsMalformed = JObj []"
| "parseArguments (ArgsJson v) = v"

record toolCall =
  call_id :: jsstring
  fn_name :: jsstring
  fn_arguments :: arguments

text \<open>
  The message of \<^verbatim>\<open>response.choices[0]\<close>: its text, if any, and its tool calls, if any.
\<close>

record choice =
  content :: "jsstring option"
  tool_calls :: "toolCall list option"

text \<open>
  The working message list. The content of a tool message is
  \<^verbatim>\<open>JSON.stringify\<close> of the value kept here.
\<close>

datatype message =
    SystemMessage jsstring
  | UserMessage jsstring
  | AssistantMessage jsstring
  | AssistantChoice choice
  | ToolMessage jsstring jsval

record action =
  tool :: jsstring
  input :: jsval
  result :: jsval

text \<open>
  What one call of \<^verbatim>\<open>openai.chat.completions.create\<close> comes back with: a completion, or a
  rejection that the \<^verbatim>\<open>await\<close> rethrows. The service may answer the same messages
  differently at different times; within one invocation the message list never repeats,
  so a function of the messages describes any behaviour of the service.
\<close>

datatype completion = Completion choice | Rejected jsstring

text \<open>
  The variables of one invocation of \<^verbatim>\<open>runAgent\<close>, with the world it acts on and the
  number of completions requested so far.
\<close>

record agent =
  messages :: "message list"
  actions :: "action list"
  env :: world
  roundTrips :: nat

definition systemPrompt :: jsstring where
  "systemPrompt =
     utf16 (''You are an AI assistant for a notes app. '' @
            ''Use tools to list, search, create, update, or delete notes. '' @
            ''If a note id is required, ask for clarification or search first. '' @
            ''When you complete an action, explain what changed. '' @
            ''Keep responses concise.'')"

definition fallbackReply :: jsstring where
  "fallbackReply = utf16 ''I couldn't complete that request. Try again with more detail.''"

text \<open>
  The body of \<^verbatim>\<open>for (const toolCall of choice.tool_calls)\<close>. A throw leaves the loop,
  with the world as the handler left it.
\<close>

definition dispatchToolCall :: "toolCall \<Rightarrow> agent \<Rightarrow> (error \<times> agent) + agent" where
  "dispatchToolCall toolCall st =
     (let toolName = fn_name toolCall
      in case agentHandlers toolName of
           None \<Rightarrow>
             (let errorResult = JObj [(utf16 ''error'', JStr (utf16 ''Unknown tool: '' @ toolName))]
              in Inr (st\<lparr>actions := actions st @
                            [\<lparr>tool = toolName, input = JObj [], result = errorResult\<rparr>],
                          messages := messages st @
                            [ToolMessage (call_id toolCall) errorResult]\<rparr>))
         | Some handler \<Rightarrow>
             (let args = parseArguments (fn_arguments toolCall)
              in case callHandler handler args (env st) of
                   (Inl e, w') \<Rightarrow> Inl (e, st\<lparr>env := w'\<rparr>)
                 | (Inr res, w') \<Rightarrow>
                     (let normalizedResult =
                            (if res = JNull \<or> res = JUndefined
                             then JObj [(utf16 ''error'', JStr (utf16 ''No result''))] else res)
                      in Inr (st\<lparr>env := w',
                                  actions := actions st @
                                    [\<lparr>tool = toolName, input = args, result = normalizedResult\<rparr>],
                                  messages := messages st @
                                    [ToolMessage (call_id toolCall) normalizedResult]\<rparr>))))"

fun runToolCalls :: "toolCall list \<Rightarrow> agent \<Rightarrow> (error \<times> agent) + agent" where
  "runToolCalls [] st = Inr st"
| "runToolCalls (toolCall # rest) st =
     (case dispatchToolCall toolCall st of
        Inl thrown \<Rightarrow> Inl thrown
      | Inr st' \<Rightarrow> runToolCalls rest st')"

text \<open>
  One pass through the body of \<^verbatim>\<open>for (let step = 0; step < 3; step += 1)\<close>: the
  invocation returns a reply, or throws, or goes on to the next step.
\<close>

datatype roundResult = Reply jsstring agent | Thrown error agent | Continue agent

definition agentRound :: "(message list \<Rightarrow> completion) \<Rightarrow> agent \<Rightarrow> roundResult" where
  "agentRound openai st =
     (let st1 = st\<lparr>roundTrips := roundTrips st + 1\<rparr>
      in case openai (messages st) of
           Rejected reason \<Rightarrow> Thrown (UpstreamError reason) st1
         | Completion choice \<Rightarrow>
             (case tool_calls choice of
                None \<Rightarrow> Reply (case content choice of None \<Rightarrow> utf16 ''Done.''
                                | Some c \<Rightarrow> if c = [] then utf16 ''Done.'' else c) st1
              | Some calls \<Rightarrow>
                  if calls = []
                  then Reply (case content choice of None \<Rightarrow> utf16 ''Done.''
                              | Some c \<Rightarrow> if c = [] then utf16 ''Done.'' else c) st1
                  else (case runToolCalls calls
                               (st1\<lparr>messages := messages st1 @ [AssistantChoice choice]\<rparr>) of
                          Inl (e, st') \<Rightarrow> Thrown e st'
                        | Inr st' \<Rightarrow> Continue st')))"

datatype outcome = Returned jsstring "action list" | Threw error

function agentLoop :: "(message list \<Rightarrow> completion) \<Rightarrow> nat \<Rightarrow> agent \<Rightarrow> outcome \<times> agent" where
  "agentLoop openai step st =
     (if step < 3
      then (case agentRound openai st of
              Reply reply st' \<Rightarrow> (Returned reply (actions st'), st')
            | Thrown e st' \<Rightarrow> (Threw e, st')
            | Continue st' \<Rightarrow> agentLoop openai (step + 1) st')
      else (Returned fallbackReply (actions st), st))"
  by pat_completeness auto
termination
  by (relation "measure (\<lambda>(openai, step, st). 3 - step)") auto

declare agentLoop.simps [simp del]

text \<open>
  \<^verbatim>\<open>runAgent(message, history = [])\<close>; \<open>openai\<close> is \<open>None\<close> when no API key is
  configured.
\<close>

definition initialAgent :: "jsstring \<Rightarrow> message list \<Rightarrow> world \<Rightarrow> agent" where
  "initialAgent msg history w =
     \<lparr>messages = SystemMessage systemPrompt # history @ [UserMessage msg],
      actions = [], env = w, roundTrips = 0\<rparr>"

definition runAgent ::
  "(message list \<Rightarrow> completion) option \<Rightarrow> jsstring \<Rightarrow> message list \<Rightarrow> world \<Rightarrow> outcome \<times> agent" where
  "runAgent client msg history w =
     (case client of
        None \<Rightarrow> (Threw ConfigurationError, initialAgent msg history w)
      | Some openai \<Rightarrow> agentLoop openai 0 (initialAgent msg history w))"

section \<open>Notions of the specification\<close>

text \<open>
  Case-insensitive containment, said without \<^verbatim>\<open>toLowerCase\<close>, for the letters that come
  in pairs 32 code units apart: A to Z, and U+00C0 to U+00DE without the multiplication
  sign. Two code units are the same letter when they are equal or are the capital and
  the small form of one letter; two strings are equal ignoring case when they have the
  same length and the same letters; and a string contains a query ignoring case when
  some contiguous part of it equals the query ignoring case.
\<close>

definition capitalLetter :: "codeUnit \<Rightarrow> bool" where
  "capitalLetter c \<longleftrightarrow> (0x41 \<le> c \<and> c \<le> 0x5A) \<or> (0xC0 \<le> c \<and> c \<le> 0xDE \<and> c \<noteq> 0xD7)"

definition sameLetter :: "codeUnit \<Rightarrow> codeUnit \<Rightarrow> bool" where
  "sameLetter c d \<longleftrightarrow>
     c = d \<or> (capitalLetter c \<and> d = c + 32) \<or> (capitalLetter d \<and> c = d + 32)"

definition equalIgnoringCase :: "jsstring \<Rightarrow> jsstring \<Rightarrow> bool" where
  "equalIgnoringCase s t \<longleftrightarrow> list_all2 sameLetter s t"

definition containsIgnoringCase :: "jsstring \<Rightarrow> jsstring \<Rightarrow> bool" where
  "containsIgnoringCase s q \<longleftrightarrow> (\<exists>m. sublist m s \<and> equalIgnoringCase m q)"

text \<open>A string of Basic Latin and Latin-1 Supplement: every code unit is below 256.\<close>

definition latin1 :: "jsstring \<Rightarrow> bool" where
  "latin1 s \<longleftrightarrow> list_all (\<lambda>c. c < 256) s"

text \<open>
  A valid payload is an object whose \<^verbatim>\<open>title\<close>, \<^verbatim>\<open>text\<close>, \<^verbatim>\<open>category\<close> and \<^verbatim>\<open>color\<close> are
  strings where they are present, as the schema of \<^verbatim>\<open>create_note\<close> declares them.
\<close>

definition validPayload :: "jsval \<Rightarrow> bool" where
  "validPayload p \<longleftrightarrow>
     (case p of
        JObj fs \<Rightarrow>
          list_all (\<lambda>k. case getProp p k of JStr s \<Rightarrow> True | JUndefined \<Rightarrow> True | _ \<Rightarrow> False)
            [utf16 ''title'', utf16 ''text'', utf16 ''category'', utf16 ''color'']
      | _ \<Rightarrow> False)"

text \<open>\<^verbatim>\<open>create\<close> followed by \<^verbatim>\<open>get\<close> of the id of the note just created.\<close>

definition createThenGet :: "jsval \<Rightarrow> world \<Rightarrow> error + (Note \<times> Note option)" where
  "createThenGet payload w =
     (case addNote payload w of
        (Inl e, w') \<Rightarrow> Inl e
      | (Inr newNote, w') \<Rightarrow> Inr (newNote, fst (getNoteById (Some (note_id newNote)) w')))"

text \<open>
  The worlds the note service can bring about: it starts with no file or with the empty
  array, and every later world is left by \<^verbatim>\<open>readNotes\<close> (which is all that \<^verbatim>\<open>list\<close>,
  \<^verbatim>\<open>get\<close> and \<^verbatim>\<open>search\<close> do to the world), \<^verbatim>\<open>addNote\<close>, \<^verbatim>\<open>updateNoteById\<close> or
  \<^verbatim>\<open>deleteNoteById\<close>.
\<close>

inductive reachable :: "world \<Rightarrow> bool" where
  initial: "stored w = [] \<Longrightarrow> reachable w"
| read: "reachable w \<Longrightarrow> readNotes w = (ns, w') \<Longrightarrow> reachable w'"
| created: "reachable w \<Longrightarrow> addNote p w = (r, w') \<Longrightarrow> reachable w'"
| updated: "reachable w \<Longrightarrow> updateNoteById i u w = (r, w') \<Longrightarrow> reachable w'"
| deleted: "reachable w \<Longrightarrow> deleteNoteById i w = (b, w') \<Longrightarrow> reachable w'"

section \<open>Sample worlds, notes and conversations\<close>

text \<open>A clock that stands still within one millisecond, and one that ticks at every reading.\<close>

definition steadyClock :: "nat \<Rightarrow> instant" where
  "steadyClock k = \<lparr>epoch_ms = 1700000000000, iso = utf16 ''2023-11-14T22:13:20.000Z''\<rparr>"

definition tickingClock :: "nat \<Rightarrow> instant" where
  "tickingClock k =
     \<lparr>epoch_ms = 1700000000000 + int (k mod 10),
      iso = utf16 ''2023-11-14T22:13:20.00'' @ showNat (k mod 10) @ utf16 ''Z''\<rparr>"

text \<open>A world without the data file, and worlds whose file holds the empty array.\<close>

definition absentWorld :: world where
  "absentWorld = \<lparr>dataFile = None, writes = 0, clock = steadyClock, reads = 0\<rparr>"

definition emptyWorld :: world where
  "emptyWorld = \<lparr>dataFile = Some [], writes = 0, clock = steadyClock, reads = 0\<rparr>"

definition tickingWorld :: world where
  "tickingWorld = \<lparr>dataFile = Some [], writes = 0, clock = tickingClock, reads = 0\<rparr>"

definition sampleNote :: Note where
  "sampleNote =
     \<lparr>note_id = 1700000000000, title = utf16 ''Groceries'', text = utf16 ''milk'',
      category = utf16 ''personal'', color = utf16 ''#ffffff'',
      createdAt = utf16 ''2023-11-14T22:13:20.000Z'',
      updatedAt = utf16 ''2023-11-14T22:13:20.000Z''\<rparr>"

text \<open>The world right after \<open>sampleNote\<close> was created, the clock still in the same millisecond.\<close>

definition oneNoteWorld :: world where
  "oneNoteWorld = \<lparr>dataFile = Some [sampleNote], writes = 1, clock = steadyClock, reads = 3\<rparr>"

text \<open>
  A note whose title is the Greek word of four capital letters omicron, delta, omicron,
  sigma (U+039F U+0394 U+039F U+03A3), and a world that holds it.
\<close>

definition greekNote :: Note where
  "greekNote =
     \<lparr>note_id = 1700000000001, title = [0x39F, 0x394, 0x39F, 0x3A3], text = [],
      category = utf16 ''general'', color = utf16 ''#ffffff'',
      createdAt = utf16 ''2023-11-14T22:13:20.001Z'',
      updatedAt = utf16 ''2023-11-14T22:13:20.001Z''\<rparr>"

definition greekWorld :: world where
  "greekWorld = \<lparr>dataFile = Some [greekNote], writes = 1, clock = steadyClock, reads = 3\<rparr>"

definition listCall :: toolCall where
  "listCall =
     \<lparr>call_id = utf16 ''call_1'', fn_name = utf16 ''list_notes'', fn_arguments = ArgsEmpty\<rparr>"

definition nullDeleteCall :: toolCall where
  "nullDeleteCall =
     \<lparr>call_id = utf16 ''call_2'', fn_name = utf16 ''delete_note'',
      fn_arguments = ArgsJson JNull\<rparr>"

definition deleteUnknownCall :: toolCall where
  "deleteUnknownCall =
     \<lparr>call_id = utf16 ''call_3'', fn_name = utf16 ''delete_note'',
      fn_arguments = ArgsJson (JObj [(utf16 ''id'', JNum 42)])\<rparr>"

definition updateUnknownCall :: toolCall where
  "updateUnknownCall =
     \<lparr>call_id = utf16 ''call_4'', fn_name = utf16 ''update_note'',
      fn_arguments =
        ArgsJson (JObj [(utf16 ''id'', JNum 42), (utf16 ''title'', JStr (utf16 ''Plan''))])\<rparr>"

definition toStringCall :: toolCall where
  "toStringCall =
     \<lparr>call_id = utf16 ''call_5'', fn_name = utf16 ''toString'', fn_arguments = ArgsEmpty\<rparr>"

definition protoCall :: toolCall where
  "protoCall =
     \<lparr>call_id = utf16 ''call_6'', fn_name = utf16 ''__proto__'', fn_arguments = ArgsEmpty\<rparr>"

text \<open>A model that asks for the list of notes whatever it is shown.\<close>

definition alwaysListing :: "message list \<Rightarrow> completion" where
  "alwaysListing ms = Completion \<lparr>content = None, tool_calls = Some [listCall]\<rparr>"

text \<open>
  A model that asks for the list in its first two rounds (the message list is shorter than
  six then) and in the third for \<^verbatim>\<open>delete_note\<close> with the arguments text \<^verbatim>\<open>null\<close>.
\<close>

definition thirdRoundNull :: "message list \<Rightarrow> completion" where
  "thirdRoundNull ms =
     Completion \<lparr>content = None,
                 tool_calls = Some [if length ms < 6 then listCall else nullDeleteCall]\<rparr>"

definition alwaysProto :: "message list \<Rightarrow> completion" where
  "alwaysProto ms = Completion \<lparr>content = None, tool_calls = Some [protoCall]\<rparr>"

lemmas eval_defs =
  utf16_def addNote_def buildNotePayload_def readClock_def readNotes_def writeNotes_def
  initDataFile_def stored_def Let_def
  getNoteById_def updateNoteById_def deleteNoteById_def
  normalizeCategory_def normalizeColor_def toLowerCase_def simpleLowercase_def cased_def
  caseIgnorable_def ALLOWED_CATEGORIES_def trim_def isWhiteSpace_def
  absentWorld_def emptyWorld_def tickingWorld_def oneNoteWorld_def sampleNote_def
  steadyClock_def tickingClock_def

lemmas agent_defs =
  utf16_def dispatchToolCall_def agentHandlers_def objectPrototypeKeys_def callInherited_def
  agentRound_def runAgent_def initialAgent_def searchNotes_def
  listCall_def nullDeleteCall_def alwaysListing_def thirdRoundNull_def
  deleteUnknownCall_def updateUnknownCall_def toStringCall_def protoCall_def alwaysProto_def

section \<open>Lists\<close>

lemma findIndex_None: "findIndex P xs = None \<longleftrightarrow> (\<forall>x\<in>set xs. \<not> P x)"
  by (induction xs) auto

lemma find_None_findIndex: "find P xs = None \<longleftrightarrow> findIndex P xs = None"
  by (induction xs) auto

lemma findIndex_Some:
  "findIndex P xs = Some k \<Longrightarrow> k < length xs \<and> P (xs ! k) \<and> find P xs = Some (xs ! k)"
  by (induction xs arbitrary: k) (auto split: if_splits)

lemma find_Some_findIndex: "find P xs = Some x \<Longrightarrow> \<exists>k. findIndex P xs = Some k \<and> xs ! k = x"
  by (induction xs) (auto split: if_splits)

lemma find_update_first: "findIndex P xs = Some k \<Longrightarrow> P y \<Longrightarrow> find P (xs[k := y]) = Some y"
  by (induction xs arbitrary: k) (auto split: if_splits)

lemma find_snoc_fresh: "\<forall>x\<in>set xs. \<not> P x \<Longrightarrow> P y \<Longrightarrow> find P (xs @ [y]) = Some y"
  by (induction xs) auto

lemma filter_length_eq: "length (filter P xs) = length xs \<longleftrightarrow> (\<forall>x\<in>set xs. P x)"
  by (metis filter_True length_filter_less less_irrefl filter_id_conv)

lemma strIncludes_sublist: "strIncludes s q \<longleftrightarrow> sublist q s"
  by (induction s) (auto simp: sublist_Cons_right)


section \<open>Properties of the store\<close>

lemma stored_initDataFile [simp]: "stored (initDataFile w) = stored w"
  by (simp add: initDataFile_def stored_def split: option.split)

lemma dataFile_initDataFile [simp]: "dataFile (initDataFile w) = Some (stored w)"
  by (simp add: initDataFile_def stored_def split: option.split)

lemma clock_initDataFile [simp]: "clock (initDataFile w) = clock w"
  by (simp add: initDataFile_def split: option.split)

lemma reads_initDataFile [simp]: "reads (initDataFile w) = reads w"
  by (simp add: initDataFile_def split: option.split)

lemma initDataFile_exists: "dataFile w = Some notes \<Longrightarrow> initDataFile w = w"
  by (simp add: initDataFile_def)

lemma initDataFile_reads [simp]:
  "initDataFile (initDataFile w\<lparr>reads := r\<rparr>) = initDataFile w\<lparr>reads := r\<rparr>"
  by (simp add: initDataFile_def stored_def split: option.split)

lemma initDataFile_idem [simp]: "initDataFile (initDataFile w) = initDataFile w"
  by (simp add: initDataFile_def split: option.split)

lemma readNotes_eq: "readNotes w = (stored w, initDataFile w)"
  by (simp add: readNotes_def Let_def)

lemma stored_writeNotes [simp]: "stored (writeNotes notes w) = notes"
  by (simp add: writeNotes_def stored_def Let_def)

lemma getNoteById_eq:
  "getNoteById i w = (find (\<lambda>n. Some (note_id n) = i) (stored w), initDataFile w)"
  by (simp add: getNoteById_def readNotes_eq)

lemma deleteNoteById_eq:
  "deleteNoteById i w =
     (if length (filter (\<lambda>n. Some (note_id n) \<noteq> i) (stored w)) = length (stored w)
      then (False, initDataFile w)
      else (True, writeNotes (filter (\<lambda>n. Some (note_id n) \<noteq> i) (stored w)) (initDataFile w)))"
  by (simp add: deleteNoteById_def readNotes_eq Let_def)

section \<open>Properties of the note service\<close>

subsection \<open>What a call computes\<close>

lemma addNote_null: "addNote JNull w = (Inl TypeError, initDataFile w)"
  by (simp add: addNote_def buildNotePayload_def readNotes_eq Let_def)

lemma addNote_result:
  assumes "p \<noteq> JNull"
  shows "\<exists>w'. addNote p w =
     (Inr \<lparr>note_id = epoch_ms (clock w (reads w)),
           title = (case getProp p (utf16 ''title'') of
                      JStr s \<Rightarrow> if trim s \<noteq> [] then trim s else utf16 ''Untitled''
                    | _ \<Rightarrow> utf16 ''Untitled''),
           text = (case getProp p (utf16 ''text'') of JStr s \<Rightarrow> trim s | _ \<Rightarrow> []),
           category = normalizeCategory (getProp p (utf16 ''category'')),
           color = normalizeColor (getProp p (utf16 ''color'')),
           createdAt = iso (clock w (reads w + 1)),
           updatedAt = iso (clock w (reads w + 2))\<rparr>, w') \<and>
     stored w' = stored w @
           [\<lparr>note_id = epoch_ms (clock w (reads w)),
           title = (case getProp p (utf16 ''title'') of
                      JStr s \<Rightarrow> if trim s \<noteq> [] then trim s else utf16 ''Untitled''
                    | _ \<Rightarrow> utf16 ''Untitled''),
           text = (case getProp p (utf16 ''text'') of JStr s \<Rightarrow> trim s | _ \<Rightarrow> []),
           category = normalizeCategory (getProp p (utf16 ''category'')),
           color = normalizeColor (getProp p (utf16 ''color'')),
           createdAt = iso (clock w (reads w + 1)),
           updatedAt = iso (clock w (reads w + 2))\<rparr>]"
proof (cases "p = JUndefined")
  case True
  then show ?thesis
    by (simp add: addNote_def buildNotePayload_def readClock_def readNotes_eq
        Let_def numeral_3_eq_3)
next
  case False
  with assms show ?thesis
    by (simp add: addNote_def buildNotePayload_def readClock_def readNotes_eq
        Let_def numeral_3_eq_3)
qed

lemma update_found:
  assumes "fst (getNoteById i w) = Some n" and "u \<noteq> JNull"
  shows "\<exists>k w'. findIndex (\<lambda>n. Some (note_id n) = i) (stored w) = Some k \<and> stored w ! k = n \<and>
    updateNoteById i u w =
     (Inr (Some (n\<lparr>title := (case getProp u (utf16 ''title'') of
                              JStr s \<Rightarrow> if trim s \<noteq> [] then trim s else title n
                            | _ \<Rightarrow> title n),
                 text := (case getProp u (utf16 ''text'') of JStr s \<Rightarrow> trim s | _ \<Rightarrow> text n),
                 category := (if getProp u (utf16 ''category'') \<noteq> JUndefined
                              then normalizeCategory (getProp u (utf16 ''category''))
                              else category n),
                 color := (if getProp u (utf16 ''color'') \<noteq> JUndefined
                           then normalizeColor (getProp u (utf16 ''color'')) else color n),
                 updatedAt := iso (clock w (reads w))\<rparr>)), w') \<and>
    stored w' = (stored w)[k :=
              n\<lparr>title := (case getProp u (utf16 ''title'') of
                             JStr s \<Rightarrow> if trim s \<noteq> [] then trim s else title n
                           | _ \<Rightarrow> title n),
                text := (case getProp u (utf16 ''text'') of JStr s \<Rightarrow> trim s | _ \<Rightarrow> text n),
                category := (if getProp u (utf16 ''category'') \<noteq> JUndefined
                             then normalizeCategory (getProp u (utf16 ''category''))
                             else category n),
                color := (if getProp u (utf16 ''color'') \<noteq> JUndefined
                          then normalizeColor (getProp u (utf16 ''color'')) else color n),
                updatedAt := iso (clock w (reads w))\<rparr>]"
proof -
  from assms(1) obtain k where
    k: "findIndex (\<lambda>n. Some (note_id n) = i) (stored w) = Some k" "stored w ! k = n"
    unfolding getNoteById_eq by (auto dest: find_Some_findIndex)
  show ?thesis
  proof (cases "u = JUndefined")
    case True
    with k show ?thesis
      by (simp add: updateNoteById_def Let_def readClock_def readNotes_eq)
  next
    case False
    with k assms(2) show ?thesis
      by (simp add: updateNoteById_def Let_def readClock_def readNotes_eq split: jsval.split)
  qed
qed

lemma update_not_null:
  assumes "updateNoteById i u w = (Inr (Some n'), w')"
  shows "u \<noteq> JNull \<and> (\<exists>k. findIndex (\<lambda>n. Some (note_id n) = i) (stored w) = Some k \<and>
           fst (getNoteById i w) = Some (stored w ! k) \<and> k < length (stored w))"
proof -
  from assms obtain k where k: "findIndex (\<lambda>n. Some (note_id n) = i) (stored w) = Some k"
    by (auto simp: updateNoteById_def Let_def readNotes_eq split: option.splits)
  from assms k have "u \<noteq> JNull"
    by (auto simp: updateNoteById_def Let_def readNotes_eq split: if_splits)
  with k findIndex_Some[OF k] show ?thesis
    by (simp add: getNoteById_eq)
qed

lemma update_stored:
  assumes "fst (getNoteById i w) = Some n" and "updateNoteById i u w = (Inr (Some n'), w')"
  shows "fst (getNoteById i w') = Some n'"
proof -
  from assms(1) obtain k where
    k: "findIndex (\<lambda>n. Some (note_id n) = i) (stored w) = Some k" "stored w ! k = n"
    unfolding getNoteById_eq by (auto dest: find_Some_findIndex)
  from update_not_null[OF assms(2)] have nn: "u \<noteq> JNull" by simp
  from findIndex_Some[OF k(1)] k(2) have idn: "Some (note_id n) = i" by simp
  from update_found[OF assms(1) nn] assms(2) k obtain
    n'_def: "note_id n' = note_id n" and w': "stored w' = (stored w)[k := n']"
    by auto
  from idn n'_def have "Some (note_id n') = i" by simp
  with k(1) w' show ?thesis
    by (simp add: getNoteById_eq find_update_first)
qed

lemma update_none_world: "updateNoteById i u w = (Inr None, w') \<Longrightarrow> w' = initDataFile w"
  by (auto simp: updateNoteById_def Let_def readClock_def readNotes_eq
      split: option.splits if_splits)

lemma update_thrown_world: "updateNoteById i u w = (Inl e, w') \<Longrightarrow> w' = initDataFile w"
  by (auto simp: updateNoteById_def Let_def readClock_def readNotes_eq
      split: option.splits if_splits)

subsection \<open>Unknown ids\<close>

text \<open>
  C7, as the code has it: for an id that matches no note of the collection,
  \<^verbatim>\<open>updateNoteById\<close> returns null and \<^verbatim>\<open>deleteNoteById\<close> returns false, and no note is
  written. Where the data file exists the world is the same afterwards: the file holds
  what it held and has not been written. Where it does not exist, the \<^verbatim>\<open>readNotes\<close> at
  the head of either function creates it with the empty array, which is the one write.
\<close>

theorem unknown_id_not_found:
  assumes "fst (getNoteById i w) = None"
  shows "updateNoteById i u w =
           (Inr None,
            if dataFile w = None then w\<lparr>dataFile := Some [], writes := writes w + 1\<rparr> else w) \<and>
         deleteNoteById i w =
           (False,
            if dataFile w = None then w\<lparr>dataFile := Some [], writes := writes w + 1\<rparr> else w)"
proof -
  from assms have none: "findIndex (\<lambda>n. Some (note_id n) = i) (stored w) = None"
    by (simp add: getNoteById_eq find_None_findIndex)
  then have "\<forall>n\<in>set (stored w). Some (note_id n) \<noteq> i"
    by (simp add: findIndex_None)
  then have "filter (\<lambda>n. Some (note_id n) \<noteq> i) (stored w) = stored w"
    by (simp add: filter_id_conv)
  with none have "updateNoteById i u w = (Inr None, initDataFile w)"
    "deleteNoteById i w = (False, initDataFile w)"
    by (simp_all add: updateNoteById_def deleteNoteById_eq readNotes_eq Let_def)
  moreover have "initDataFile w =
           (if dataFile w = None then w\<lparr>dataFile := Some [], writes := writes w + 1\<rparr> else w)"
    by (simp add: initDataFile_def split: option.split)
  ultimately show ?thesis by simp
qed

theorem unknown_id_not_found_witness:
  "fst (getNoteById (Some 42) oneNoteWorld) = None \<and>
   updateNoteById (Some 42) (JObj [(utf16 ''text'', JStr [])]) oneNoteWorld
     = (Inr None, oneNoteWorld) \<and>
   deleteNoteById (Some 42) oneNoteWorld = (False, oneNoteWorld)"
proof -
  have g: "fst (getNoteById (Some 42) oneNoteWorld) = None"
    by (simp add: getNoteById_eq stored_def oneNoteWorld_def sampleNote_def)
  have d: "dataFile oneNoteWorld \<noteq> None"
    by (simp add: oneNoteWorld_def)
  from unknown_id_not_found[OF g] g d show ?thesis by simp
qed

text \<open>
  C7 as it is worded has no write occur. In a world without the data file, an update and
  a delete of an unknown id each leave the file written, with the empty array.
\<close>

theorem unknown_id_not_found_counterexample:
  "updateNoteById (Some 42) (JObj [(utf16 ''text'', JStr [])]) absentWorld
     = (Inr None, \<lparr>dataFile = Some [], writes = 1, clock = steadyClock, reads = 0\<rparr>) \<and>
   deleteNoteById (Some 42) absentWorld
     = (False, \<lparr>dataFile = Some [], writes = 1, clock = steadyClock, reads = 0\<rparr>) \<and>
   dataFile absentWorld = None \<and> writes absentWorld = 0"
  by (simp add: updateNoteById_def deleteNoteById_def readNotes_def initDataFile_def stored_def
      Let_def absentWorld_def)

text \<open>
  C9: after \<^verbatim>\<open>deleteNoteById(id)\<close>, whether it returned true or false,
  \<^verbatim>\<open>getNoteById(id)\<close> finds nothing.
\<close>

theorem delete_then_get:
  "fst (getNoteById i (snd (deleteNoteById i w))) = None"
proof (cases "length (filter (\<lambda>n. Some (note_id n) \<noteq> i) (stored w)) = length (stored w)")
  case True
  then have "\<forall>n\<in>set (stored w). Some (note_id n) \<noteq> i"
    by (simp add: filter_length_eq)
  then have "find (\<lambda>n. Some (note_id n) = i) (stored w) = None"
    by (simp add: find_None_iff)
  with True show ?thesis
    by (simp add: getNoteById_eq deleteNoteById_eq)
next
  case False
  have "find (\<lambda>n. Some (note_id n) = i)
          (filter (\<lambda>n. Some (note_id n) \<noteq> i) (stored w)) = None"
    by (simp add: find_None_iff)
  with False show ?thesis
    by (simp add: getNoteById_eq deleteNoteById_eq)
qed

theorem delete_then_get_witness:
  "fst (getNoteById (Some 1700000000000) oneNoteWorld) = Some sampleNote \<and>
   deleteNoteById (Some 1700000000000) oneNoteWorld
     = (True, \<lparr>dataFile = Some [], writes = 2, clock = steadyClock, reads = 3\<rparr>) \<and>
   fst (getNoteById (Some 1700000000000)
          (snd (deleteNoteById (Some 1700000000000) oneNoteWorld))) = None"
proof -
  have g: "fst (getNoteById (Some 1700000000000) oneNoteWorld) = Some sampleNote"
    by (simp add: getNoteById_eq stored_def oneNoteWorld_def sampleNote_def)
  have d: "deleteNoteById (Some 1700000000000) oneNoteWorld
     = (True, \<lparr>dataFile = Some [], writes = 2, clock = steadyClock, reads = 3\<rparr>)"
    by (simp add: deleteNoteById_def readNotes_def writeNotes_def initDataFile_def stored_def
        Let_def oneNoteWorld_def sampleNote_def)
  from delete_then_get[of "Some 1700000000000" oneNoteWorld] g d show ?thesis by blast
qed

subsection \<open>Updates\<close>



text \<open>
  C6, as the code has it: on an existing note, an update with the empty payload stores
  the same note with \<^verbatim>\<open>updatedAt\<close> set to the clock reading of the update and every other
  field as it was; and any successful update leaves the id and \<^verbatim>\<open>createdAt\<close> alone, sets
  \<^verbatim>\<open>updatedAt\<close> to the clock reading, and leaves \<^verbatim>\<open>title\<close>, \<^verbatim>\<open>text\<close>, \<^verbatim>\<open>category\<close> and
  \<^verbatim>\<open>color\<close> alone where the payload does not have them.
\<close>

theorem update_frame:
  assumes "fst (getNoteById i w) = Some n"
  shows "(\<exists>w'. updateNoteById i (JObj []) w
                  = (Inr (Some (n\<lparr>updatedAt := iso (clock w (reads w))\<rparr>)), w')
            \<and> fst (getNoteById i w') = Some (n\<lparr>updatedAt := iso (clock w (reads w))\<rparr>))
       \<and> (\<forall>u n' w'. updateNoteById i u w = (Inr (Some n'), w') \<longrightarrow>
            fst (getNoteById i w') = Some n' \<and>
            note_id n' = note_id n \<and> createdAt n' = createdAt n \<and>
            updatedAt n' = iso (clock w (reads w)) \<and>
            (getProp u (utf16 ''title'') = JUndefined \<longrightarrow> title n' = title n) \<and>
            (getProp u (utf16 ''text'') = JUndefined \<longrightarrow> text n' = text n) \<and>
            (getProp u (utf16 ''category'') = JUndefined \<longrightarrow> category n' = category n) \<and>
            (getProp u (utf16 ''color'') = JUndefined \<longrightarrow> color n' = color n))"
proof (intro conjI allI impI)
  have nn: "JObj [] \<noteq> JNull" by simp
  from update_found[OF assms nn] obtain w' where
    u: "updateNoteById i (JObj []) w
          = (Inr (Some (n\<lparr>updatedAt := iso (clock w (reads w))\<rparr>)), w')"
    by auto
  with update_stored[OF assms u]
  show "\<exists>w'. updateNoteById i (JObj []) w
                = (Inr (Some (n\<lparr>updatedAt := iso (clock w (reads w))\<rparr>)), w')
            \<and> fst (getNoteById i w') = Some (n\<lparr>updatedAt := iso (clock w (reads w))\<rparr>)"
    by blast
next
  fix u n' w' assume a: "updateNoteById i u w = (Inr (Some n'), w')"
  from update_not_null[OF a] have nn: "u \<noteq> JNull" by simp
  from update_found[OF assms nn] a
  have n': "n' = n\<lparr>title := (case getProp u (utf16 ''title'') of
                              JStr s \<Rightarrow> if trim s \<noteq> [] then trim s else title n
                            | _ \<Rightarrow> title n),
                 text := (case getProp u (utf16 ''text'') of JStr s \<Rightarrow> trim s | _ \<Rightarrow> text n),
                 category := (if getProp u (utf16 ''category'') \<noteq> JUndefined
                              then normalizeCategory (getProp u (utf16 ''category''))
                              else category n),
                 color := (if getProp u (utf16 ''color'') \<noteq> JUndefined
                           then normalizeColor (getProp u (utf16 ''color'')) else color n),
                 updatedAt := iso (clock w (reads w))\<rparr>"
    by auto
  show "fst (getNoteById i w') = Some n'" using assms a by (rule update_stored)
  show "note_id n' = note_id n" "createdAt n' = createdAt n"
    "updatedAt n' = iso (clock w (reads w))"
    by (simp_all add: n')
  { assume "getProp u (utf16 ''title'') = JUndefined"
    then show "title n' = title n" by (simp add: n') }
  { assume "getProp u (utf16 ''text'') = JUndefined"
    then show "text n' = text n" by (simp add: n') }
  { assume "getProp u (utf16 ''category'') = JUndefined"
    then show "category n' = category n" by (simp add: n') }
  { assume "getProp u (utf16 ''color'') = JUndefined"
    then show "color n' = color n" by (simp add: n') }
qed

theorem update_frame_witness:
  "fst (getNoteById (Some 1700000000000) (oneNoteWorld\<lparr>clock := tickingClock\<rparr>))
     = Some sampleNote \<and>
   fst (updateNoteById (Some 1700000000000) (JObj []) (oneNoteWorld\<lparr>clock := tickingClock\<rparr>))
     = Inr (Some (sampleNote\<lparr>updatedAt := utf16 ''2023-11-14T22:13:20.003Z''\<rparr>))"
proof -
  let ?w = "oneNoteWorld\<lparr>clock := tickingClock\<rparr>"
  have g: "fst (getNoteById (Some 1700000000000) ?w) = Some sampleNote"
    by (simp add: getNoteById_eq stored_def oneNoteWorld_def sampleNote_def)
  have t: "iso (clock ?w (reads ?w)) = utf16 ''2023-11-14T22:13:20.003Z''"
    by (simp add: oneNoteWorld_def tickingClock_def showNat.simps utf16_def)
  from update_frame[OF g] obtain w' where
    "updateNoteById (Some 1700000000000) (JObj []) ?w
       = (Inr (Some (sampleNote\<lparr>updatedAt := iso (clock ?w (reads ?w))\<rparr>)), w')"
    by blast
  then have "fst (updateNoteById (Some 1700000000000) (JObj []) ?w)
       = Inr (Some (sampleNote\<lparr>updatedAt := utf16 ''2023-11-14T22:13:20.003Z''\<rparr>))"
    unfolding t by simp
  with g show ?thesis by blast
qed

text \<open>
  C6 as it is worded asks that the empty update change \<^verbatim>\<open>updatedAt\<close>. An update within
  the millisecond of the previous one reads the same time and stores the note unchanged.
\<close>

theorem update_frame_counterexample:
  "fst (getNoteById (Some 1700000000000) oneNoteWorld) = Some sampleNote \<and>
   updateNoteById (Some 1700000000000) (JObj []) oneNoteWorld
     = (Inr (Some sampleNote),
        \<lparr>dataFile = Some [sampleNote], writes = 2, clock = steadyClock, reads = 4\<rparr>)"
  by (simp add: eval_defs)

subsection \<open>Categories\<close>

lemma normalizeCategory_allowed: "normalizeCategory c \<in> ALLOWED_CATEGORIES"
  by (simp add: normalizeCategory_def ALLOWED_CATEGORIES_def Let_def)

lemma normalizeCategory_string:
  "normalizeCategory (JStr c) =
     (if toLowerCase c \<in> ALLOWED_CATEGORIES then toLowerCase c else utf16 ''general'')"
  by (cases c)
     (simp_all add: normalizeCategory_def Let_def toLowerCase_def ALLOWED_CATEGORIES_def
        utf16_def)

lemma normalizeColor_string:
  "normalizeColor (JStr c) = (if c = [] then utf16 ''#ffffff'' else c)"
  by (simp add: normalizeColor_def)

lemma addNote_category:
  assumes "addNote p w = (Inr n, w')"
  shows "category n \<in> ALLOWED_CATEGORIES \<and> stored w' = stored w @ [n]"
proof (cases "p = JNull")
  case True
  with assms show ?thesis by (simp add: addNote_null)
next
  case False
  from addNote_result[OF False, of w] assms show ?thesis
    by (auto simp: normalizeCategory_allowed)
qed

lemma addNote_thrown_world: "addNote p w = (Inl e, w') \<Longrightarrow> stored w' = stored w"
  by (cases "p = JNull") (use addNote_result[of p w] in \<open>auto simp: addNote_null\<close>)

lemma update_category:
  assumes "\<forall>n\<in>set (stored w). category n \<in> ALLOWED_CATEGORIES"
    and "updateNoteById i u w = (Inr (Some n'), w')"
  shows "category n' \<in> ALLOWED_CATEGORIES \<and> set (stored w') \<subseteq> insert n' (set (stored w))"
proof -
  from update_not_null[OF assms(2)] obtain k where nn: "u \<noteq> JNull"
    and k: "findIndex (\<lambda>n. Some (note_id n) = i) (stored w) = Some k"
    and g: "fst (getNoteById i w) = Some (stored w ! k)" and kl: "k < length (stored w)"
    by blast
  from kl assms(1) have c: "category (stored w ! k) \<in> ALLOWED_CATEGORIES" by simp
  from update_found[OF g nn] assms(2) k
  have n': "category n' = (if getProp u (utf16 ''category'') \<noteq> JUndefined
                           then normalizeCategory (getProp u (utf16 ''category''))
                           else category (stored w ! k))"
    and w': "stored w' = (stored w)[k := n']"
    by auto
  from n' c have "category n' \<in> ALLOWED_CATEGORIES"
    by (simp add: normalizeCategory_allowed)
  moreover from w' have "set (stored w') \<subseteq> insert n' (set (stored w))"
    by (simp add: set_update_subset_insert)
  ultimately show ?thesis by simp
qed

lemma reachable_categories:
  "reachable w \<Longrightarrow> \<forall>n\<in>set (stored w). category n \<in> ALLOWED_CATEGORIES"
proof (induction rule: reachable.induct)
  case (initial w)
  then show ?case by simp
next
  case (read w ns w')
  then show ?case by (auto simp: readNotes_eq)
next
  case (created w p r w')
  show ?case
  proof (cases r)
    case (Inl e)
    with created addNote_thrown_world[of p w e w'] show ?thesis by simp
  next
    case (Inr n)
    with created addNote_category[of p w n w'] show ?thesis by auto
  qed
next
  case (updated w i u r w')
  show ?case
  proof (cases r)
    case (Inl e)
    with updated update_thrown_world[of i u w e w'] show ?thesis by simp
  next
    case (Inr found)
    show ?thesis
    proof (cases found)
      case None
      with Inr updated update_none_world[of i u w w'] show ?thesis by simp
    next
      case (Some n')
      with Inr updated update_category[of w i u n' w'] show ?thesis by blast
    qed
  qed
next
  case (deleted w i b w')
  then show ?case
    by (auto simp: deleteNoteById_eq split: if_splits)
qed

text \<open>
  C4: whatever the payload, the note that \<^verbatim>\<open>addNote\<close> stores has one of the four
  categories, and \<^verbatim>\<open>bogus\<close> is stored as \<^verbatim>\<open>general\<close>; and in every world the service
  can bring about, all stored notes have one of the four categories and so has the note
  that a successful \<^verbatim>\<open>updateNoteById\<close> stores.
\<close>

theorem category_invariant:
  "(\<forall>p n w'. addNote p w = (Inr n, w') \<longrightarrow>
       category n \<in> ALLOWED_CATEGORIES \<and> n \<in> set (stored w'))
   \<and> (\<exists>n w'. addNote (JObj [(utf16 ''category'', JStr (utf16 ''bogus''))]) w = (Inr n, w') \<and>
          category n = utf16 ''general'' \<and> n \<in> set (stored w'))
   \<and> (reachable w \<longrightarrow>
        (\<forall>n\<in>set (stored w). category n \<in> ALLOWED_CATEGORIES) \<and>
        (\<forall>i u n w'. updateNoteById i u w = (Inr (Some n), w') \<longrightarrow>
           category n \<in> ALLOWED_CATEGORIES \<and> fst (getNoteById i w') = Some n))"
proof (intro conjI allI impI)
  fix p n w' assume a: "addNote p w = (Inr n, w')"
  from addNote_category[OF a]
  show "category n \<in> ALLOWED_CATEGORIES" and "n \<in> set (stored w')"
    by simp_all
next
  have "JObj [(utf16 ''category'', JStr (utf16 ''bogus''))] \<noteq> JNull" by simp
  from addNote_result[OF this, of w] obtain n w' where
    a: "addNote (JObj [(utf16 ''category'', JStr (utf16 ''bogus''))]) w = (Inr n, w')"
    and c: "category n = normalizeCategory
              (getProp (JObj [(utf16 ''category'', JStr (utf16 ''bogus''))]) (utf16 ''category''))"
    and m: "n \<in> set (stored w')"
    by auto
  have "normalizeCategory
          (getProp (JObj [(utf16 ''category'', JStr (utf16 ''bogus''))]) (utf16 ''category''))
        = utf16 ''general''"
    by (simp add: normalizeCategory_def toLowerCase_def simpleLowercase_def
        ALLOWED_CATEGORIES_def Let_def utf16_def)
  with a c m
  show "\<exists>n w'. addNote (JObj [(utf16 ''category'', JStr (utf16 ''bogus''))]) w = (Inr n, w') \<and>
          category n = utf16 ''general'' \<and> n \<in> set (stored w')"
    by auto
next
  assume r: "reachable w"
  then show "\<forall>n\<in>set (stored w). category n \<in> ALLOWED_CATEGORIES"
    by (rule reachable_categories)
  fix i u n w' assume a: "updateNoteById i u w = (Inr (Some n), w')"
  from update_category[OF reachable_categories[OF r] a]
  show "category n \<in> ALLOWED_CATEGORIES" by simp
  from update_not_null[OF a] obtain k where "fst (getNoteById i w) = Some (stored w ! k)"
    by blast
  then show "fst (getNoteById i w') = Some n" using a by (rule update_stored)
qed

theorem category_invariant_witness:
  "reachable oneNoteWorld \<and>
   map category
     (stored (snd (updateNoteById (Some 1700000000000)
                     (JObj [(utf16 ''category'', JStr (utf16 ''Urgent''))]) oneNoteWorld)))
     = [utf16 ''general'']"
proof -
  have e: "reachable emptyWorld"
    by (rule reachable.initial) (simp add: emptyWorld_def stored_def)
  have "addNote (JObj [(utf16 ''title'', JStr (utf16 ''Groceries'')),
                       (utf16 ''text'', JStr (utf16 ''milk'')),
                       (utf16 ''category'', JStr (utf16 ''personal''))]) emptyWorld
          = (Inr sampleNote, oneNoteWorld)"
    by (simp add: eval_defs)
  with e have r: "reachable oneNoteWorld" by (rule reachable.created)
  have "\<exists>n w'. updateNoteById (Some 1700000000000)
                  (JObj [(utf16 ''category'', JStr (utf16 ''Urgent''))]) oneNoteWorld
                  = (Inr (Some n), w') \<and> stored w' = [n]"
    by (simp add: eval_defs)
  then obtain n w' where
    u: "updateNoteById (Some 1700000000000)
          (JObj [(utf16 ''category'', JStr (utf16 ''Urgent''))]) oneNoteWorld
          = (Inr (Some n), w')" and d: "stored w' = [n]"
    by blast
  from category_invariant[of oneNoteWorld] r u have "category n \<in> ALLOWED_CATEGORIES"
    by blast
  moreover have "category n \<notin> {utf16 ''personal'', utf16 ''work'', utf16 ''ideas''}"
    using u by (auto simp: eval_defs)
  ultimately have "category n = utf16 ''general''"
    by (auto simp: ALLOWED_CATEGORIES_def)
  with u d r show ?thesis by simp
qed

subsection \<open>Create, then get\<close>

lemma validPayload_field:
  assumes "validPayload p"
    and "k \<in> {utf16 ''title'', utf16 ''text'', utf16 ''category'', utf16 ''color''}"
  shows "(\<exists>s. getProp p k = JStr s) \<or> getProp p k = JUndefined"
proof -
  from assms(1) obtain fs where p: "p = JObj fs"
    by (auto simp: validPayload_def split: jsval.splits)
  from assms(1) p
  have "\<forall>k\<in>set [utf16 ''title'', utf16 ''text'', utf16 ''category'', utf16 ''color''].
      (case getProp p k of JStr s \<Rightarrow> True | JUndefined \<Rightarrow> True | _ \<Rightarrow> False)"
    unfolding validPayload_def by (simp only: jsval.case list_all_iff)
  with assms(2) have "case getProp p k of JStr s \<Rightarrow> True | JUndefined \<Rightarrow> True | _ \<Rightarrow> False"
    by auto
  then show ?thesis by (auto split: jsval.splits)
qed

text \<open>
  C5, as the code has it: for a valid payload and a collection in which no note has the
  id about to be given (the millisecond read from the clock), create followed by get of
  the new id returns the created note; its title is the trimmed title, or \<^verbatim>\<open>Untitled\<close>
  when that is empty or no title was given; its text is the trimmed text, or empty; its
  category is the given one in lower case when that is one of the four, and
  \<^verbatim>\<open>general\<close> otherwise; its color is the given string when that is not empty, and
  \<^verbatim>\<open>#ffffff\<close> otherwise; \<^verbatim>\<open>createdAt\<close> and \<^verbatim>\<open>updatedAt\<close> are the second and the third
  reading of the clock, equal when these readings are.
\<close>

theorem create_then_get:
  assumes "validPayload p"
    and "\<forall>n\<in>set (stored w). note_id n \<noteq> epoch_ms (clock w (reads w))"
  shows "\<exists>n. createThenGet p w = Inr (n, Some n) \<and>
     title n = (case getProp p (utf16 ''title'') of
                  JStr s \<Rightarrow> if trim s = [] then utf16 ''Untitled'' else trim s
                | _ \<Rightarrow> utf16 ''Untitled'') \<and>
     text n = (case getProp p (utf16 ''text'') of JStr s \<Rightarrow> trim s | _ \<Rightarrow> []) \<and>
     category n = (case getProp p (utf16 ''category'') of
                     JStr c \<Rightarrow> if toLowerCase c \<in> ALLOWED_CATEGORIES then toLowerCase c
                               else utf16 ''general''
                   | _ \<Rightarrow> utf16 ''general'') \<and>
     color n = (case getProp p (utf16 ''color'') of
                  JStr c \<Rightarrow> if c = [] then utf16 ''#ffffff'' else c
                | _ \<Rightarrow> utf16 ''#ffffff'') \<and>
     createdAt n = iso (clock w (reads w + 1)) \<and>
     updatedAt n = iso (clock w (reads w + 2)) \<and>
     (clock w (reads w + 1) = clock w (reads w + 2) \<longrightarrow> createdAt n = updatedAt n)"
proof -
  from assms(1) have nn: "p \<noteq> JNull"
    by (auto simp: validPayload_def)
  define n where "n = \<lparr>note_id = epoch_ms (clock w (reads w)),
           title = (case getProp p (utf16 ''title'') of
                      JStr s \<Rightarrow> if trim s \<noteq> [] then trim s else utf16 ''Untitled''
                    | _ \<Rightarrow> utf16 ''Untitled''),
           text = (case getProp p (utf16 ''text'') of JStr s \<Rightarrow> trim s | _ \<Rightarrow> []),
           category = normalizeCategory (getProp p (utf16 ''category'')),
           color = normalizeColor (getProp p (utf16 ''color'')),
           createdAt = iso (clock w (reads w + 1)),
           updatedAt = iso (clock w (reads w + 2))\<rparr>"
  from addNote_result[OF nn, of w] obtain w' where
    add: "addNote p w = (Inr n, w')" and st: "stored w' = stored w @ [n]"
    unfolding n_def by blast
  have idn: "note_id n = epoch_ms (clock w (reads w))" by (simp add: n_def)
  from assms(2) have "find (\<lambda>m. Some (note_id m) = Some (note_id n)) (stored w @ [n]) = Some n"
    by (intro find_snoc_fresh) (simp_all add: idn)
  with add st have ctg: "createThenGet p w = Inr (n, Some n)"
    by (simp add: createThenGet_def getNoteById_eq)
  have t: "title n = (case getProp p (utf16 ''title'') of
                  JStr s \<Rightarrow> if trim s = [] then utf16 ''Untitled'' else trim s
                | _ \<Rightarrow> utf16 ''Untitled'')"
    by (simp add: n_def split: jsval.split)
  have x: "text n = (case getProp p (utf16 ''text'') of JStr s \<Rightarrow> trim s | _ \<Rightarrow> [])"
    by (simp add: n_def)
  from validPayload_field[OF assms(1), of "utf16 ''category''"]
  have c: "category n = (case getProp p (utf16 ''category'') of
                     JStr c \<Rightarrow> if toLowerCase c \<in> ALLOWED_CATEGORIES then toLowerCase c
                               else utf16 ''general'' | _ \<Rightarrow> utf16 ''general'')"
    by (auto simp: n_def normalizeCategory_string) (simp add: normalizeCategory_def)
  from validPayload_field[OF assms(1), of "utf16 ''color''"]
  have l: "color n = (case getProp p (utf16 ''color'') of
                  JStr c \<Rightarrow> if c = [] then utf16 ''#ffffff'' else c | _ \<Rightarrow> utf16 ''#ffffff'')"
    by (auto simp: n_def normalizeColor_string) (simp add: normalizeColor_def)
  have ts: "createdAt n = iso (clock w (reads w + 1))"
    "updatedAt n = iso (clock w (reads w + 2))"
    by (simp_all add: n_def)
  from ctg t x c l ts show ?thesis by (intro exI[of _ n]) simp
qed

theorem create_then_get_witness:
  "createThenGet (JObj [(utf16 ''title'', JStr (utf16 ''  Groceries '')),
                        (utf16 ''text'', JStr (utf16 ''milk'')),
                        (utf16 ''category'', JStr (utf16 ''Personal''))]) emptyWorld
   = Inr (sampleNote, Some sampleNote)"
proof -
  let ?p = "JObj [(utf16 ''title'', JStr (utf16 ''  Groceries '')),
                  (utf16 ''text'', JStr (utf16 ''milk'')),
                  (utf16 ''category'', JStr (utf16 ''Personal''))]"
  have v: "validPayload ?p" by (simp add: validPayload_def utf16_def)
  have f: "\<forall>n\<in>set (stored emptyWorld).
             note_id n \<noteq> epoch_ms (clock emptyWorld (reads emptyWorld))"
    by (simp add: stored_def emptyWorld_def)
  from create_then_get[OF v f] obtain n where n: "createThenGet ?p emptyWorld = Inr (n, Some n)"
    by blast
  moreover have "map_sum id fst (createThenGet ?p emptyWorld) = Inr sampleNote"
    by (simp add: createThenGet_def eval_defs)
  ultimately show ?thesis by simp
qed

text \<open>
  C5 as it is worded fails in two ways. A second note created within the millisecond of
  the first gets the id of the first, and get of that id returns the first note. And when
  the clock ticks between the two readings \<^verbatim>\<open>new Date()\<close> of \<^verbatim>\<open>addNote\<close>, the note is
  stored with \<^verbatim>\<open>createdAt\<close> one millisecond before \<^verbatim>\<open>updatedAt\<close>.
\<close>

theorem create_then_get_counterexample:
  "createThenGet (JObj [(utf16 ''title'', JStr (utf16 ''Second''))]) oneNoteWorld
     = Inr (\<lparr>note_id = 1700000000000, title = utf16 ''Second'', text = [],
             category = utf16 ''general'', color = utf16 ''#ffffff'',
             createdAt = utf16 ''2023-11-14T22:13:20.000Z'',
             updatedAt = utf16 ''2023-11-14T22:13:20.000Z''\<rparr>,
            Some sampleNote)
   \<and> createThenGet (JObj [(utf16 ''title'', JStr (utf16 ''A'')),
                          (utf16 ''text'', JStr (utf16 ''B''))]) tickingWorld
     = Inr (\<lparr>note_id = 1700000000000, title = utf16 ''A'', text = utf16 ''B'',
             category = utf16 ''general'', color = utf16 ''#ffffff'',
             createdAt = utf16 ''2023-11-14T22:13:20.001Z'',
             updatedAt = utf16 ''2023-11-14T22:13:20.002Z''\<rparr>,
            Some \<lparr>note_id = 1700000000000, title = utf16 ''A'', text = utf16 ''B'',
                  category = utf16 ''general'', color = utf16 ''#ffffff'',
                  createdAt = utf16 ''2023-11-14T22:13:20.001Z'',
                  updatedAt = utf16 ''2023-11-14T22:13:20.002Z''\<rparr>)"
  by (simp add: createThenGet_def eval_defs showNat.simps)

subsection \<open>Search\<close>

text \<open>
  Below U+0100 there is no sigma and no U+0130: lower case is the simple mapping of each
  code unit, and two code units have the same lower case exactly when they are the same
  letter.
\<close>

lemma lowerFrom_latin1:
  "list_all (\<lambda>c. c < 256) s \<Longrightarrow> lowerFrom seen s = map simpleLowercase s"
  by (induction s arbitrary: seen) auto

lemma toLowerCase_latin1: "latin1 s \<Longrightarrow> toLowerCase s = map simpleLowercase s"
  by (simp add: toLowerCase_def latin1_def lowerFrom_latin1)

lemma sameLetter_lowercase:
  assumes "c < 256" and "d < 256"
  shows "simpleLowercase c = simpleLowercase d \<longleftrightarrow> sameLetter c d"
  using assms unfolding simpleLowercase_def sameLetter_def capitalLetter_def
  by (auto split: if_splits)

lemma equalIgnoringCase_lowercase:
  "latin1 m \<Longrightarrow> latin1 q \<Longrightarrow>
     map simpleLowercase m = map simpleLowercase q \<longleftrightarrow> equalIgnoringCase m q"
proof (induction m arbitrary: q)
  case Nil
  then show ?case by (simp add: equalIgnoringCase_def)
next
  case (Cons c m)
  show ?case
  proof (cases q)
    case Nil
    then show ?thesis by (simp add: equalIgnoringCase_def)
  next
    case (Cons d q')
    with Cons.prems have "c < 256" "d < 256" "latin1 m" "latin1 q'"
      by (simp_all add: latin1_def)
    with Cons.IH[of q'] Cons show ?thesis
      by (simp add: equalIgnoringCase_def sameLetter_lowercase)
  qed
qed

lemma latin1_sublist: "sublist m s \<Longrightarrow> latin1 s \<Longrightarrow> latin1 m"
  by (auto simp: latin1_def list_all_iff dest: set_mono_sublist)

lemma includes_lower_latin1:
  assumes "latin1 s" and "latin1 q"
  shows "strIncludes (toLowerCase s) (toLowerCase q) \<longleftrightarrow> containsIgnoringCase s q"
proof
  assume "strIncludes (toLowerCase s) (toLowerCase q)"
  with assms have "sublist (map simpleLowercase q) (map simpleLowercase s)"
    by (simp add: strIncludes_sublist toLowerCase_latin1)
  then obtain m where m: "sublist m s" "map simpleLowercase q = map simpleLowercase m"
    by (blast dest: sublist_map_rightE)
  from m(1) assms(1) have "latin1 m" by (rule latin1_sublist)
  with m(2) assms(2) have "equalIgnoringCase m q"
    by (simp add: equalIgnoringCase_lowercase[symmetric])
  with m(1) show "containsIgnoringCase s q"
    by (auto simp: containsIgnoringCase_def)
next
  assume "containsIgnoringCase s q"
  then obtain m where m: "sublist m s" "equalIgnoringCase m q"
    by (auto simp: containsIgnoringCase_def)
  from m(1) assms(1) have l: "latin1 m" by (rule latin1_sublist)
  with m(2) assms(2) have e: "map simpleLowercase m = map simpleLowercase q"
    by (simp add: equalIgnoringCase_lowercase)
  from m(1) have "sublist (map simpleLowercase m) (map simpleLowercase s)"
    by (rule map_mono_sublist)
  with e assms show "strIncludes (toLowerCase s) (toLowerCase q)"
    by (simp add: strIncludes_sublist toLowerCase_latin1)
qed

lemma searchNotes_string:
  "searchNotes (JStr q) w =
     (filter (\<lambda>n. strIncludes (toLowerCase (title n)) (toLowerCase q) \<or>
                   strIncludes (toLowerCase (text n)) (toLowerCase q)) (stored w),
      initDataFile w)"
proof -
  have "toLowerCase (jsString (if falsy (JStr q) then JStr [] else JStr q)) = toLowerCase q"
    by (cases q) (simp_all add: toLowerCase_def)
  then show ?thesis
    by (simp add: searchNotes_def Let_def readNotes_eq)
qed

text \<open>
  C8, as the code has it: for a query string, \<^verbatim>\<open>searchNotes\<close> returns, in the order of
  the collection, exactly the notes for which the title in lower case or the text in
  lower case contains the query in lower case. Where the query and the titles and texts
  of the collection are Latin-1 strings, ASCII among them, these are exactly the notes
  whose title or text contains the query as a case-insensitive substring. For the empty
  query it returns the whole collection.
\<close>

theorem search_matches:
  "fst (searchNotes (JStr q) w) =
     filter (\<lambda>n. sublist (toLowerCase q) (toLowerCase (title n)) \<or>
                  sublist (toLowerCase q) (toLowerCase (text n))) (stored w)
   \<and> (latin1 q \<and> (\<forall>n\<in>set (stored w). latin1 (title n) \<and> latin1 (text n)) \<longrightarrow>
        fst (searchNotes (JStr q) w) =
          filter (\<lambda>n. containsIgnoringCase (title n) q \<or> containsIgnoringCase (text n) q)
            (stored w))
   \<and> fst (searchNotes (JStr []) w) = stored w"
proof (intro conjI impI)
  show "fst (searchNotes (JStr q) w) =
     filter (\<lambda>n. sublist (toLowerCase q) (toLowerCase (title n)) \<or>
                  sublist (toLowerCase q) (toLowerCase (text n))) (stored w)"
    by (simp add: searchNotes_string strIncludes_sublist)
next
  assume a: "latin1 q \<and> (\<forall>n\<in>set (stored w). latin1 (title n) \<and> latin1 (text n))"
  then have "\<forall>n\<in>set (stored w).
      (strIncludes (toLowerCase (title n)) (toLowerCase q) \<or>
       strIncludes (toLowerCase (text n)) (toLowerCase q)) =
      (containsIgnoringCase (title n) q \<or> containsIgnoringCase (text n) q)"
    by (simp add: includes_lower_latin1)
  then show "fst (searchNotes (JStr q) w) =
          filter (\<lambda>n. containsIgnoringCase (title n) q \<or> containsIgnoringCase (text n) q)
            (stored w)"
    unfolding searchNotes_string fst_conv by (intro filter_cong refl) simp
next
  have "\<And>s. strIncludes s []"
    by (simp add: strIncludes_sublist)
  then show "fst (searchNotes (JStr []) w) = stored w"
    by (simp add: searchNotes_string toLowerCase_def)
qed

theorem search_matches_witness:
  "fst (searchNotes (JStr (utf16 ''MILK'')) oneNoteWorld) = [sampleNote] \<and>
   fst (searchNotes (JStr (utf16 ''Rice'')) oneNoteWorld) = [] \<and>
   fst (searchNotes (JStr []) oneNoteWorld) = [sampleNote]"
proof -
  have r: "stored oneNoteWorld = [sampleNote]"
    by (simp add: stored_def oneNoteWorld_def)
  have l: "latin1 (title sampleNote)" "latin1 (text sampleNote)"
    "latin1 (utf16 ''MILK'')" "latin1 (utf16 ''Rice'')"
    by (simp_all add: latin1_def sampleNote_def utf16_def)
  have m: "containsIgnoringCase (text sampleNote) (utf16 ''MILK'')"
    unfolding includes_lower_latin1[OF l(2) l(3), symmetric]
    by (simp add: sampleNote_def toLowerCase_def simpleLowercase_def utf16_def)
  have t: "\<not> containsIgnoringCase (title sampleNote) (utf16 ''Rice'')"
    unfolding includes_lower_latin1[OF l(1) l(4), symmetric]
    by (simp add: sampleNote_def toLowerCase_def simpleLowercase_def utf16_def)
  have x: "\<not> containsIgnoringCase (text sampleNote) (utf16 ''Rice'')"
    unfolding includes_lower_latin1[OF l(2) l(4), symmetric]
    by (simp add: sampleNote_def toLowerCase_def simpleLowercase_def utf16_def)
  from search_matches[of "utf16 ''MILK''" oneNoteWorld, THEN conjunct2, THEN conjunct1] l m
  have 1: "fst (searchNotes (JStr (utf16 ''MILK'')) oneNoteWorld) = [sampleNote]"
    unfolding r by simp
  from search_matches[of "utf16 ''Rice''" oneNoteWorld, THEN conjunct2, THEN conjunct1] l t x
  have 2: "fst (searchNotes (JStr (utf16 ''Rice'')) oneNoteWorld) = []"
    unfolding r by simp
  from search_matches[of "[]" oneNoteWorld, THEN conjunct2, THEN conjunct2]
  have 3: "fst (searchNotes (JStr []) oneNoteWorld) = [sampleNote]"
    unfolding r .
  from 1 2 3 show ?thesis by simp
qed

text \<open>
  C8 as it is worded fails where lower case depends on the place of a letter. The title of
  \<open>greekNote\<close> ends in a capital sigma, so it contains the query that is one capital
  sigma, as it stands and all the more ignoring case. In lower case the title ends in the
  final sigma U+03C2, the query is the sigma U+03C3, and the search returns nothing.
\<close>

theorem search_matches_counterexample:
  "stored greekWorld = [greekNote] \<and>
   strIncludes (title greekNote) [0x3A3] \<and>
   containsIgnoringCase (title greekNote) [0x3A3] \<and>
   toLowerCase (title greekNote) = [0x3BF, 0x3B4, 0x3BF, 0x3C2] \<and>
   toLowerCase [0x3A3] = [0x3C3] \<and>
   searchNotes (JStr [0x3A3]) greekWorld = ([], greekWorld)"
proof -
  have s: "strIncludes (title greekNote) [0x3A3]"
    by (simp add: greekNote_def)
  then have "sublist [0x3A3] (title greekNote)"
    by (simp add: strIncludes_sublist)
  moreover have "equalIgnoringCase [0x3A3] [0x3A3]"
    by (simp add: equalIgnoringCase_def sameLetter_def)
  ultimately have c: "containsIgnoringCase (title greekNote) [0x3A3]"
    unfolding containsIgnoringCase_def by blast
  have "stored greekWorld = [greekNote]"
    "toLowerCase (title greekNote) = [0x3BF, 0x3B4, 0x3BF, 0x3C2]"
    "toLowerCase [0x3A3] = [0x3C3]"
    "searchNotes (JStr [0x3A3]) greekWorld = ([], greekWorld)"
    by (simp_all add: searchNotes_def readNotes_def initDataFile_def stored_def Let_def
        greekWorld_def greekNote_def toLowerCase_def simpleLowercase_def cased_def
        caseIgnorable_def utf16_def)
  with s c show ?thesis by simp
qed

section \<open>Properties of the agent loop\<close>

subsection \<open>One tool call, one round of tool calls\<close>

lemma dispatch_Inr:
  assumes "dispatchToolCall tc st = Inr st'"
  shows "\<exists>a. actions st' = actions st @ [a] \<and> tool a = fn_name tc \<and>
             messages st' = messages st @ [ToolMessage (call_id tc) (result a)] \<and>
             roundTrips st' = roundTrips st"
  using assms
  by (auto simp: dispatchToolCall_def Let_def split: option.splits sum.splits prod.splits)

lemma dispatch_Inl:
  "dispatchToolCall tc st = Inl (e, st') \<Longrightarrow>
     roundTrips st' = roundTrips st \<and> actions st' = actions st \<and> messages st' = messages st"
  by (auto simp: dispatchToolCall_def Let_def split: option.splits sum.splits prod.splits)

lemma runToolCalls_Inr:
  "runToolCalls calls st = Inr st' \<Longrightarrow>
     \<exists>new ms. actions st' = actions st @ new \<and> length new = length calls \<and>
        messages st' = messages st @ ms \<and> length ms = length calls \<and>
        roundTrips st' = roundTrips st"
proof (induction calls arbitrary: st)
  case Nil
  then show ?case by simp
next
  case (Cons tc rest)
  from Cons.prems obtain st1 where d: "dispatchToolCall tc st = Inr st1"
    and r: "runToolCalls rest st1 = Inr st'"
    by (auto split: sum.splits)
  from dispatch_Inr[OF d] obtain a where a: "actions st1 = actions st @ [a]"
    "messages st1 = messages st @ [ToolMessage (call_id tc) (result a)]"
    "roundTrips st1 = roundTrips st"
    by blast
  from Cons.IH[OF r] obtain new ms where
    n: "actions st' = actions st1 @ new" "length new = length rest"
       "messages st' = messages st1 @ ms" "length ms = length rest"
       "roundTrips st' = roundTrips st1"
    by blast
  show ?case
  proof (intro exI conjI)
    show "actions st' = actions st @ (a # new)" using a n by simp
    show "messages st' = messages st @ (ToolMessage (call_id tc) (result a) # ms)"
      using a n by simp
  qed (use a n in simp_all)
qed

lemma runToolCalls_Inl:
  "runToolCalls calls st = Inl (e, st') \<Longrightarrow> roundTrips st' = roundTrips st"
proof (induction calls arbitrary: st)
  case Nil
  then show ?case by simp
next
  case (Cons tc rest)
  show ?case
  proof (cases "dispatchToolCall tc st")
    case (Inl thrown)
    with Cons.prems have "thrown = (e, st')" by simp
    with Inl dispatch_Inl[of tc st e st'] show ?thesis by simp
  next
    case (Inr st1)
    with Cons.prems have "runToolCalls rest st1 = Inl (e, st')" by simp
    from Cons.IH[OF this] dispatch_Inr[OF Inr] show ?thesis by auto
  qed
qed

text \<open>
  In a round that runs to its end, the \<open>k\<close>-th tool call appends the \<open>k\<close>-th new action
  and the \<open>k\<close>-th new message, and later calls leave both in place.
\<close>

lemma runToolCalls_nth:
  assumes "runToolCalls calls st = Inr st'" and "k < length calls"
  shows "\<exists>stk stk'. runToolCalls (take k calls) st = Inr stk \<and>
           dispatchToolCall (calls ! k) stk = Inr stk' \<and>
           actions st' ! (length (actions st) + k) = last (actions stk') \<and>
           messages st' ! (length (messages st) + k) = last (messages stk')"
  using assms
proof (induction calls arbitrary: st k)
  case Nil
  then show ?case by simp
next
  case (Cons tc rest)
  from Cons.prems(1) obtain st1 where d: "dispatchToolCall tc st = Inr st1"
    and r: "runToolCalls rest st1 = Inr st'"
    by (auto split: sum.splits)
  from dispatch_Inr[OF d] obtain a where a: "actions st1 = actions st @ [a]"
    "messages st1 = messages st @ [ToolMessage (call_id tc) (result a)]"
    by blast
  show ?case
  proof (cases k)
    case 0
    from runToolCalls_Inr[OF r] obtain new ms where
      "actions st' = actions st1 @ new" "messages st' = messages st1 @ ms" by blast
    with a have "actions st' ! (length (actions st)) = last (actions st1)"
      "messages st' ! (length (messages st)) = last (messages st1)"
      by simp_all
    with 0 d show ?thesis by simp
  next
    case (Suc j)
    with Cons.prems(2) have j: "j < length rest" by simp
    from Cons.IH[OF r j] obtain stk stk' where
      s: "runToolCalls (take j rest) st1 = Inr stk" "dispatchToolCall (rest ! j) stk = Inr stk'"
         "actions st' ! (length (actions st1) + j) = last (actions stk')"
         "messages st' ! (length (messages st1) + j) = last (messages stk')"
      by blast
    from s(1) d Suc have "runToolCalls (take k (tc # rest)) st = Inr stk" by simp
    moreover from s(2) Suc have "dispatchToolCall ((tc # rest) ! k) stk = Inr stk'" by simp
    moreover from s(3) a Suc
    have "actions st' ! (length (actions st) + k) = last (actions stk')" by simp
    moreover from s(4) a Suc
    have "messages st' ! (length (messages st) + k) = last (messages stk')" by simp
    ultimately show ?thesis by blast
  qed
qed

subsection \<open>Results of registered tools\<close>

text \<open>
  C1, as the code has it: in a round that runs to its end, for every tool call that names
  one of the five registered tools, the handler is run on the parsed arguments in the
  world the earlier calls of the round have left; when its result is null or undefined
  the action recorded for the call and the tool message fed back for it both carry
  \<^verbatim>\<open>{error: "No result"}\<close>, and any other result, false included, is recorded and fed
  back as it is.
\<close>

theorem registered_tool_result:
  assumes "runToolCalls calls st = Inr st'" and "k < length calls"
    and "agentHandlers (fn_name (calls ! k)) = Some (Own t)"
  shows "\<exists>stk res w'.
           runToolCalls (take k calls) st = Inr stk \<and>
           runTool t (parseArguments (fn_arguments (calls ! k))) (env stk) = (Inr res, w') \<and>
           actions st' ! (length (actions st) + k) =
             \<lparr>tool = fn_name (calls ! k), input = parseArguments (fn_arguments (calls ! k)),
              result = (if res = JNull \<or> res = JUndefined
                        then JObj [(utf16 ''error'', JStr (utf16 ''No result''))] else res)\<rparr> \<and>
           messages st' ! (length (messages st) + k) =
             ToolMessage (call_id (calls ! k))
               (if res = JNull \<or> res = JUndefined
                then JObj [(utf16 ''error'', JStr (utf16 ''No result''))] else res)"
proof -
  from runToolCalls_nth[OF assms(1,2)] obtain stk stk' where
    s: "runToolCalls (take k calls) st = Inr stk" "dispatchToolCall (calls ! k) stk = Inr stk'"
       "actions st' ! (length (actions st) + k) = last (actions stk')"
       "messages st' ! (length (messages st) + k) = last (messages stk')"
    by blast
  from s(2) assms(3) obtain res w' where
    r: "runTool t (parseArguments (fn_arguments (calls ! k))) (env stk) = (Inr res, w')"
    by (auto simp: dispatchToolCall_def Let_def split: sum.splits prod.splits)
  with s(2) assms(3) have
    "last (actions stk') =
       \<lparr>tool = fn_name (calls ! k), input = parseArguments (fn_arguments (calls ! k)),
        result = (if res = JNull \<or> res = JUndefined
                  then JObj [(utf16 ''error'', JStr (utf16 ''No result''))] else res)\<rparr>"
    "last (messages stk') = ToolMessage (call_id (calls ! k))
               (if res = JNull \<or> res = JUndefined
                then JObj [(utf16 ''error'', JStr (utf16 ''No result''))] else res)"
    by (auto simp: dispatchToolCall_def Let_def)
  with s r show ?thesis by metis
qed

theorem registered_tool_result_witness:
  "\<exists>st' res w'.
     runToolCalls [updateUnknownCall] (initialAgent (utf16 ''rename note 42'') [] oneNoteWorld)
       = Inr st' \<and>
     runTool update_note
       (JObj [(utf16 ''id'', JNum 42), (utf16 ''title'', JStr (utf16 ''Plan''))]) oneNoteWorld
       = (Inr res, w') \<and>
     res = JNull \<and>
     actions st' ! 0 =
       \<lparr>tool = utf16 ''update_note'',
        input = JObj [(utf16 ''id'', JNum 42), (utf16 ''title'', JStr (utf16 ''Plan''))],
        result = JObj [(utf16 ''error'', JStr (utf16 ''No result''))]\<rparr> \<and>
     messages st' ! 2 = ToolMessage (utf16 ''call_4'') (JObj [(utf16 ''error'', JStr (utf16 ''No result''))])"
proof -
  let ?st = "initialAgent (utf16 ''rename note 42'') [] oneNoteWorld"
  have "\<exists>st'. runToolCalls [updateUnknownCall] ?st = Inr st'"
    by (simp add: agent_defs eval_defs)
  then obtain st' where h1: "runToolCalls [updateUnknownCall] ?st = Inr st'" ..
  have h2: "0 < length [updateUnknownCall]" by simp
  have h3: "agentHandlers (fn_name ([updateUnknownCall] ! 0)) = Some (Own update_note)"
    by (simp add: agent_defs)
  have r: "runTool update_note
             (JObj [(utf16 ''id'', JNum 42), (utf16 ''title'', JStr (utf16 ''Plan''))]) oneNoteWorld
             = (Inr JNull, oneNoteWorld)"
    by (simp add: eval_defs stringToNumber_def digitValue_def)
  from registered_tool_result[OF h1 h2 h3] obtain stk res w' where
    a: "runToolCalls (take 0 [updateUnknownCall]) ?st = Inr stk" and
    b: "runTool update_note (parseArguments (fn_arguments ([updateUnknownCall] ! 0))) (env stk)
          = (Inr res, w')" and
    c: "actions st' ! (length (actions ?st) + 0) =
          \<lparr>tool = fn_name ([updateUnknownCall] ! 0),
           input = parseArguments (fn_arguments ([updateUnknownCall] ! 0)),
           result = (if res = JNull \<or> res = JUndefined
                     then JObj [(utf16 ''error'', JStr (utf16 ''No result''))] else res)\<rparr>" and
    d: "messages st' ! (length (messages ?st) + 0) =
          ToolMessage (call_id ([updateUnknownCall] ! 0))
            (if res = JNull \<or> res = JUndefined
             then JObj [(utf16 ''error'', JStr (utf16 ''No result''))] else res)"
    by blast
  from a have stk: "stk = ?st" by simp
  have e: "env ?st = oneNoteWorld" by (simp add: initialAgent_def)
  have p: "parseArguments (fn_arguments ([updateUnknownCall] ! 0))
             = JObj [(utf16 ''id'', JNum 42), (utf16 ''title'', JStr (utf16 ''Plan''))]"
    by (simp add: updateUnknownCall_def)
  from b r have res: "res = JNull" unfolding stk e p by simp
  have la: "length (actions ?st) + 0 = 0" by (simp add: initialAgent_def)
  have lm: "length (messages ?st) + 0 = 2" by (simp add: initialAgent_def)
  from c have c': "actions st' ! 0 =
      \<lparr>tool = utf16 ''update_note'',
        input = JObj [(utf16 ''id'', JNum 42), (utf16 ''title'', JStr (utf16 ''Plan''))],
       result = JObj [(utf16 ''error'', JStr (utf16 ''No result''))]\<rparr>"
    unfolding la p res by (simp add: updateUnknownCall_def)
  from d have d': "messages st' ! 2 = ToolMessage (utf16 ''call_4'') (JObj [(utf16 ''error'', JStr (utf16 ''No result''))])"
    unfolding lm res by (simp add: updateUnknownCall_def)
  from h1 r res c' d' show ?thesis by blast
qed

text \<open>
  C1 as it is worded takes every falsy result to \<^verbatim>\<open>{error: "No result"}\<close>, the false of
  \<^verbatim>\<open>delete_note\<close> for an unknown id in particular. The operator \<^verbatim>\<open>??\<close> replaces null and
  undefined only: the action and the tool message of that call carry false.
\<close>

theorem registered_tool_result_counterexample:
  "runToolCalls [deleteUnknownCall] (initialAgent (utf16 ''remove note 42'') [] oneNoteWorld)
   = Inr \<lparr>messages = [SystemMessage systemPrompt, UserMessage (utf16 ''remove note 42''),
                       ToolMessage (utf16 ''call_3'') (JBool False)],
           actions = [\<lparr>tool = utf16 ''delete_note'', input = JObj [(utf16 ''id'', JNum 42)],
                       result = JBool False\<rparr>],
           env = oneNoteWorld, roundTrips = 0\<rparr>"
  by (simp add: agent_defs eval_defs)

subsection \<open>Unknown tools\<close>

text \<open>
  A tool call whose name \<^verbatim>\<open>agentHandlers[toolName]\<close> does not find is answered with one
  action and one tool message that carry \<^verbatim>\<open>{error: "Unknown tool: <name>"}\<close>, and the
  round goes on.
\<close>

lemma unknown_tool_recorded:
  assumes "agentHandlers (fn_name tc) = None"
  shows "dispatchToolCall tc st =
     Inr (st\<lparr>actions := actions st @
                 [\<lparr>tool = fn_name tc, input = JObj [],
                   result = JObj [(utf16 ''error'', JStr (utf16 ''Unknown tool: '' @ fn_name tc))]\<rparr>],
              messages := messages st @
                 [ToolMessage (call_id tc)
                    (JObj [(utf16 ''error'', JStr (utf16 ''Unknown tool: '' @ fn_name tc))])]\<rparr>)"
  using assms by (simp add: dispatchToolCall_def Let_def)

text \<open>
  C3 asks this for every name that is not one of the five registered tools. The lookup
  also finds what \<^verbatim>\<open>agentHandlers\<close> inherits from \<^verbatim>\<open>Object.prototype\<close>. For the name
  \<^verbatim>\<open>toString\<close> the inherited function is called and its result is recorded as the
  result of the tool, with no error; for \<^verbatim>\<open>__proto__\<close> the value found is not a function,
  the call throws a TypeError, and \<^verbatim>\<open>runAgent\<close> ends with that exception.
\<close>

theorem inherited_name_dispatch:
  "dispatchToolCall toStringCall (initialAgent (utf16 ''hello'') [] emptyWorld)
   = Inr \<lparr>messages = [SystemMessage systemPrompt, UserMessage (utf16 ''hello''),
                       ToolMessage (utf16 ''call_5'') (JStr (utf16 ''[object Undefined]''))],
           actions = [\<lparr>tool = utf16 ''toString'', input = JObj [],
                       result = JStr (utf16 ''[object Undefined]'')\<rparr>],
           env = emptyWorld, roundTrips = 0\<rparr>
   \<and> dispatchToolCall protoCall (initialAgent (utf16 ''hello'') [] emptyWorld)
       = Inl (TypeError, initialAgent (utf16 ''hello'') [] emptyWorld)
   \<and> fst (runAgent (Some alwaysProto) (utf16 ''hello'') [] emptyWorld) = Threw TypeError"
  by (simp add: agent_defs eval_defs agentLoop.simps)

subsection \<open>The round limit\<close>

text \<open>
  The loop goes on to a next step exactly when the model answered with tool calls and
  every one of them was dispatched without a throw.
\<close>

lemma agentRound_Continue:
  "agentRound openai st = Continue st' \<longleftrightarrow>
     (\<exists>choice calls. openai (messages st) = Completion choice \<and>
        tool_calls choice = Some calls \<and> calls \<noteq> [] \<and>
        runToolCalls calls (st\<lparr>roundTrips := roundTrips st + 1,
                               messages := messages st @ [AssistantChoice choice]\<rparr>) = Inr st')"
  by (auto simp: agentRound_def Let_def
      split: completion.splits option.splits sum.splits if_splits)

lemma agentRound_trips:
  "agentRound openai st = Reply r st' \<Longrightarrow>
     roundTrips st' = roundTrips st + 1 \<and> actions st' = actions st"
  "agentRound openai st = Thrown e st' \<Longrightarrow> roundTrips st' = roundTrips st + 1"
  "agentRound openai st = Continue st' \<Longrightarrow>
     roundTrips st' = roundTrips st + 1 \<and> prefix (actions st) (actions st')"
  by (auto simp: agentRound_def Let_def
      split: completion.splits option.splits sum.splits if_splits
      dest!: runToolCalls_Inr runToolCalls_Inl)

lemma agentLoop_Continue:
  "step < 3 \<Longrightarrow> agentRound openai st = Continue st' \<Longrightarrow>
     agentLoop openai step st = agentLoop openai (Suc step) st'"
  by (subst agentLoop.simps) simp

lemma agentLoop_exhausted:
  "3 \<le> step \<Longrightarrow> agentLoop openai step st = (Returned fallbackReply (actions st), st)"
  by (subst agentLoop.simps) simp

lemma agentLoop_trips:
  "roundTrips (snd (agentLoop openai step st)) \<le> roundTrips st + (3 - step)"
proof (induction openai step st rule: agentLoop.induct)
  case (1 openai step st)
  show ?case
  proof (cases "step < 3")
    case False
    then show ?thesis by (simp add: agentLoop.simps)
  next
    case True
    show ?thesis
    proof (cases "agentRound openai st")
      case (Reply r st')
      with True agentRound_trips(1)[OF Reply] show ?thesis
        by (simp add: agentLoop.simps)
    next
      case (Thrown e st')
      with True agentRound_trips(2)[OF Thrown] show ?thesis
        by (simp add: agentLoop.simps)
    next
      case (Continue st')
      from "1.IH"[OF True Continue] agentRound_trips(3)[OF Continue] True Continue
      show ?thesis
        by (simp add: agentLoop.simps[of openai step st])
    qed
  qed
qed

text \<open>
  C2, as the code has it: \<^verbatim>\<open>runAgent\<close> always ends, after at most three requests to the
  model; and when each of three rounds brings tool calls that are all dispatched without
  a throw, it returns the fallback reply with the actions of the state after the third
  round, which has seen three requests and whose actions extend those of the second
  round, as these extend those of the first.
\<close>

theorem round_limit:
  "roundTrips (snd (runAgent client msg history w)) \<le> 3 \<and>
   (\<forall>openai st1 st2 st3.
      client = Some openai \<and>
      agentRound openai (initialAgent msg history w) = Continue st1 \<and>
      agentRound openai st1 = Continue st2 \<and>
      agentRound openai st2 = Continue st3 \<longrightarrow>
        runAgent client msg history w = (Returned fallbackReply (actions st3), st3) \<and>
        roundTrips st3 = 3 \<and>
        prefix (actions st1) (actions st2) \<and> prefix (actions st2) (actions st3))"
proof (intro conjI allI impI)
  show "roundTrips (snd (runAgent client msg history w)) \<le> 3"
  proof (cases client)
    case None
    then show ?thesis by (simp add: runAgent_def initialAgent_def)
  next
    case (Some openai)
    with agentLoop_trips[of openai 0 "initialAgent msg history w"] show ?thesis
      by (simp add: runAgent_def initialAgent_def)
  qed
next
  fix openai st1 st2 st3
  assume a: "client = Some openai \<and>
      agentRound openai (initialAgent msg history w) = Continue st1 \<and>
      agentRound openai st1 = Continue st2 \<and>
      agentRound openai st2 = Continue st3"
  then have c: "client = Some openai"
    and r1: "agentRound openai (initialAgent msg history w) = Continue st1"
    and r2: "agentRound openai st1 = Continue st2"
    and r3: "agentRound openai st2 = Continue st3"
    by simp_all
  have "agentLoop openai 0 (initialAgent msg history w) = agentLoop openai (Suc 0) st1"
    using r1 by (simp add: agentLoop_Continue)
  also have "\<dots> = agentLoop openai (Suc (Suc 0)) st2"
    using r2 by (simp add: agentLoop_Continue)
  also have "\<dots> = agentLoop openai (Suc (Suc (Suc 0))) st3"
    using r3 by (simp add: agentLoop_Continue)
  also have "\<dots> = (Returned fallbackReply (actions st3), st3)"
    by (simp add: agentLoop_exhausted)
  finally have "agentLoop openai 0 (initialAgent msg history w)
                  = (Returned fallbackReply (actions st3), st3)" .
  with c show "runAgent client msg history w = (Returned fallbackReply (actions st3), st3)"
    by (simp add: runAgent_def)
  from agentRound_trips(3)[OF r1] agentRound_trips(3)[OF r2] agentRound_trips(3)[OF r3]
  show "roundTrips st3 = 3" "prefix (actions st1) (actions st2)"
    "prefix (actions st2) (actions st3)"
    by (simp_all add: initialAgent_def)
qed

lemma alwaysListing_round:
  assumes "dataFile (env st) = Some []"
  shows "agentRound alwaysListing st =
     Continue (st\<lparr>roundTrips := roundTrips st + 1,
                  messages := messages st @
                    [AssistantChoice \<lparr>content = None, tool_calls = Some [listCall]\<rparr>,
                     ToolMessage (utf16 ''call_1'') (JArr [])],
                  actions := actions st @
                    [\<lparr>tool = utf16 ''list_notes'', input = JObj [], result = JArr []\<rparr>]\<rparr>)"
  using assms
  by (simp add: agent_defs readNotes_def initDataFile_def stored_def Let_def utf16_def)

theorem round_limit_witness:
  "fst (runAgent (Some alwaysListing) (utf16 ''list my notes'') [] emptyWorld)
     = Returned fallbackReply
         [\<lparr>tool = utf16 ''list_notes'', input = JObj [], result = JArr []\<rparr>,
          \<lparr>tool = utf16 ''list_notes'', input = JObj [], result = JArr []\<rparr>,
          \<lparr>tool = utf16 ''list_notes'', input = JObj [], result = JArr []\<rparr>]"
proof -
  let ?st0 = "initialAgent (utf16 ''list my notes'') [] emptyWorld"
  let ?next = "\<lambda>st. st\<lparr>roundTrips := roundTrips st + 1,
                  messages := messages st @
                    [AssistantChoice \<lparr>content = None, tool_calls = Some [listCall]\<rparr>,
                     ToolMessage (utf16 ''call_1'') (JArr [])],
                  actions := actions st @
                    [\<lparr>tool = utf16 ''list_notes'', input = JObj [], result = JArr []\<rparr>]\<rparr>"
  have r1: "agentRound alwaysListing ?st0 = Continue (?next ?st0)"
    by (rule alwaysListing_round) (simp add: initialAgent_def emptyWorld_def)
  have r2: "agentRound alwaysListing (?next ?st0) = Continue (?next (?next ?st0))"
    by (rule alwaysListing_round) (simp add: initialAgent_def emptyWorld_def)
  have r3: "agentRound alwaysListing (?next (?next ?st0)) = Continue (?next (?next (?next ?st0)))"
    by (rule alwaysListing_round) (simp add: initialAgent_def emptyWorld_def)
  from round_limit[of "Some alwaysListing" "utf16 ''list my notes''" "[]" emptyWorld] r1 r2 r3
  have "runAgent (Some alwaysListing) (utf16 ''list my notes'') [] emptyWorld
          = (Returned fallbackReply (actions (?next (?next (?next ?st0)))),
             ?next (?next (?next ?st0)))"
    by blast
  then show ?thesis
    by (simp add: initialAgent_def)
qed

text \<open>
  C2 as it is worded promises the fallback reply whenever three rounds bring tool calls.
  Here the third round asks for \<^verbatim>\<open>delete_note\<close> with the arguments text \<^verbatim>\<open>null\<close>; the
  handler's parameter pattern throws on null, and after three requests and the two
  actions of the earlier rounds \<^verbatim>\<open>runAgent\<close> ends with a TypeError instead of a reply.
\<close>

theorem round_limit_counterexample:
  "fst (runAgent (Some thirdRoundNull) (utf16 ''tidy up'') [] emptyWorld) = Threw TypeError \<and>
   roundTrips (snd (runAgent (Some thirdRoundNull) (utf16 ''tidy up'') [] emptyWorld)) = 3 \<and>
   map tool (actions (snd (runAgent (Some thirdRoundNull) (utf16 ''tidy up'') [] emptyWorld)))
     = [utf16 ''list_notes'', utf16 ''list_notes'']"
  by (simp add: agent_defs eval_defs agentLoop.simps)

end
